theory Spec2Isabelle
  imports Main "HOL-Library.Word"
begin

unbundle bit_operations_syntax

section \<open>Values that cross the React Native bridge\<close>

text \<open>
  A Kotlin \<open>Byte\<close> is a signed 8-bit integer. A promise handed to a native method is
  identified by a number; the module state keeps the log of every \<open>resolve\<close> and
  \<open>reject\<close> call, in the order the calls are made.
\<close>

type_synonym byte = "8 word"

type_synonym promise = nat

datatype jsval =
    JUndefined
  | JBool bool
  | JInt int
  | JStr string
  | JArr "jsval list"
  | JMap "(string \<times> jsval) list"

datatype outcome =
    Resolved jsval
  | Rejected string string

datatype exn =
    IOException string
  | Exception string

fun message :: "exn \<Rightarrow> string" where
  "message (IOException m) = m"
| "message (Exception m) = m"

section \<open>The platform: USB registry and serial driver\<close>

record UsbDevice =
  deviceName :: string
  vendorId :: int
  productId :: int
  manufacturerName :: "string option"
  productName :: "string option"
  serialNumber :: "string option"
  deviceClass :: int
  deviceSubclass :: int

record UsbSerialPort =
  port_device :: string
  port_opened :: bool
  port_baudRate :: int
  port_dtr :: bool
  port_rts :: bool

text \<open>
  The calls the module makes into \<open>UsbManager\<close> and the driver library are parameters:
  \<open>deviceList\<close> is \<open>usbManager.deviceList.values\<close> in iteration order,
  \<open>probeDevice\<close> says whether a driver is found, \<open>openDevice\<close> whether a
  connection is obtained, and the remaining fields give the exception a call throws, if
  it throws (\<open>firstPort\<close> is \<open>driver.ports[0]\<close>, which throws on a driver without
  ports).
\<close>

record platform =
  deviceList :: "UsbDevice list"
  hasPermission :: "UsbDevice \<Rightarrow> bool"
  probeDevice :: "UsbDevice \<Rightarrow> bool"
  openDevice :: "UsbDevice \<Rightarrow> bool"
  firstPort :: "UsbDevice \<Rightarrow> exn option"
  portOpen :: "UsbDevice \<Rightarrow> exn option"
  portSetParameters :: "int \<Rightarrow> exn option"
  portSetDTR :: "bool \<Rightarrow> exn option"
  portSetRTS :: "bool \<Rightarrow> exn option"
  portWrite :: "byte list \<Rightarrow> exn option"
  portClose :: "UsbSerialPort \<Rightarrow> exn option"

section \<open>The native module \<open>SerialPortModule\<close> (Kotlin)\<close>

datatype job = Active | Cancelled

record module_state =
  serialPort :: "UsbSerialPort option"
  isConnected :: bool
  readBuffer :: "byte list"
  readJob :: "job option"
  permissionPromise :: "promise option"
  requested :: "string list"
  settled :: "(promise \<times> outcome) list"

text \<open>The state of a freshly constructed module.\<close>

definition module_init :: module_state where
  "module_init =
     \<lparr>serialPort = None, isConnected = False, readBuffer = [], readJob = None,
      permissionPromise = None, requested = [], settled = []\<rparr>"

text \<open>\<open>promise?.resolve(v)\<close> and \<open>promise?.reject(code, msg)\<close>: nothing on \<open>null\<close>.\<close>

definition settle :: "promise option \<Rightarrow> outcome \<Rightarrow> module_state \<Rightarrow> module_state" where
  "settle promise out s =
     (case promise of
        None \<Rightarrow> s
      | Some p \<Rightarrow> s\<lparr>settled := settled s @ [(p, out)]\<rparr>)"

text \<open>What JavaScript sees of a promise: its first settlement, if it has one.\<close>

definition await :: "promise \<Rightarrow> module_state \<Rightarrow> outcome option" where
  "await p s = map_of (settled s) p"

text \<open>
  \<open>requestPermission\<close> stores the promise in the single field \<open>permissionPromise\<close> and
  asks the platform for permission; \<open>requested\<close> records the platform calls.
\<close>

definition requestPermission ::
  "UsbDevice \<Rightarrow> promise \<Rightarrow> int \<Rightarrow> module_state \<Rightarrow> module_state" where
  "requestPermission device promise baudRate s =
     s\<lparr>permissionPromise := Some promise,
       requested := requested s @ [deviceName device]\<rparr>"

text \<open>
  The body of \<open>serialPort?.let { port -> ... }\<close> up to \<open>port.rts = true\<close>: the
  first call that throws stops the sequence; the port keeps what was done before.
\<close>

definition configure ::
  "platform \<Rightarrow> UsbDevice \<Rightarrow> int \<Rightarrow> UsbSerialPort \<Rightarrow> exn option \<times> UsbSerialPort" where
  "configure env device baudRate port =
     (case portOpen env device of
        Some e \<Rightarrow> (Some e, port)
      | None \<Rightarrow>
         (let port1 = port\<lparr>port_opened := True\<rparr> in
          case portSetParameters env baudRate of
            Some e \<Rightarrow> (Some e, port1)
          | None \<Rightarrow>
             (let port2 = port1\<lparr>port_baudRate := baudRate\<rparr> in
              case portSetDTR env True of
                Some e \<Rightarrow> (Some e, port2)
              | None \<Rightarrow>
                 (let port3 = port2\<lparr>port_dtr := True\<rparr> in
                  case portSetRTS env True of
                    Some e \<Rightarrow> (Some e, port3)
                  | None \<Rightarrow> (None, port3\<lparr>port_rts := True\<rparr>)))))"

definition connectionResult :: "UsbDevice \<Rightarrow> int \<Rightarrow> jsval" where
  "connectionResult device baudRate =
     JMap [(''connected'', JBool True),
           (''deviceName'', JStr (deviceName device)),
           (''baudRate'', JInt baudRate)]"

text \<open>\<open>startReading\<close> launches the read loop and keeps its job.\<close>

definition startReading :: "module_state \<Rightarrow> module_state" where
  "startReading s = s\<lparr>readJob := Some Active\<rparr>"

text \<open>The two \<open>catch\<close> clauses of \<open>openDeviceInternal\<close>.\<close>

fun open_failure :: "exn \<Rightarrow> outcome" where
  "open_failure (IOException m) = Rejected ''IO_ERROR'' (''IO error: '' @ m)"
| "open_failure (Exception m) = Rejected ''OPEN_ERROR'' (''Failed to open: '' @ m)"

text \<open>
  \<open>openDeviceInternal\<close>. The field \<open>serialPort\<close> is assigned before the port is
  opened, so it keeps the port when a later call throws.
\<close>

definition openDeviceInternal ::
  "platform \<Rightarrow> UsbDevice \<Rightarrow> promise option \<Rightarrow> int \<Rightarrow> module_state \<Rightarrow> module_state" where
  "openDeviceInternal env device promise baudRate s =
     (if \<not> probeDevice env device
      then settle promise (Rejected ''NO_DRIVER'' ''No driver found for device'') s
      else if \<not> openDevice env device
      then settle promise (Rejected ''OPEN_FAILED'' ''Failed to open device connection'') s
      else
        (case firstPort env device of
           Some e \<Rightarrow> settle promise (open_failure e) s
         | None \<Rightarrow>
            (let port0 = \<lparr>port_device = deviceName device, port_opened = False,
                          port_baudRate = 0, port_dtr = False, port_rts = False\<rparr>
             in case configure env device baudRate port0 of
                  (Some e, port) \<Rightarrow>
                    settle promise (open_failure e) (s\<lparr>serialPort := Some port\<rparr>)
                | (None, port) \<Rightarrow>
                    settle promise (Resolved (connectionResult device baudRate))
                      (startReading (s\<lparr>serialPort := Some port, isConnected := True\<rparr>)))))"

text \<open>The vendor test of \<open>connect\<close>: CP210x, CH340, FTDI.\<close>

definition knownVendor :: "UsbDevice \<Rightarrow> bool" where
  "knownVendor device =
     (let vendorId' = vendorId device
      in vendorId' = 0x10C4 \<or> vendorId' = 0x1A86 \<or> vendorId' = 0x0403)"

definition targetDevice :: "platform \<Rightarrow> string option \<Rightarrow> UsbDevice option" where
  "targetDevice env name =
     (case name of
        Some n \<Rightarrow> find (\<lambda>it. deviceName it = n) (deviceList env)
      | None \<Rightarrow> find knownVendor (deviceList env))"

definition connect ::
  "platform \<Rightarrow> string option \<Rightarrow> int \<Rightarrow> promise \<Rightarrow> module_state \<Rightarrow> module_state" where
  "connect env name baudRate promise s =
     (if isConnected s
      then settle (Some promise) (Rejected ''ALREADY_CONNECTED'' ''Already connected to a device'') s
      else case targetDevice env name of
             None \<Rightarrow>
               settle (Some promise) (Rejected ''NO_DEVICE'' ''No compatible USB device found'') s
           | Some device \<Rightarrow>
               if hasPermission env device
               then openDeviceInternal env device (Some promise) baudRate s
               else requestPermission device promise baudRate s)"

text \<open>
  The broadcast receiver, action \<open>USB_PERMISSION\<close>. The launched block runs
  \<open>openDeviceInternal\<close> with the default baud rate and then empties the field.
\<close>

definition onPermissionResult ::
  "platform \<Rightarrow> bool \<Rightarrow> UsbDevice option \<Rightarrow> module_state \<Rightarrow> module_state" where
  "onPermissionResult env granted device s =
     (case device of
        Some d \<Rightarrow>
          if granted
          then (openDeviceInternal env d (permissionPromise s) 115200 s)
                 \<lparr>permissionPromise := None\<rparr>
          else (settle (permissionPromise s)
                  (Rejected ''PERMISSION_DENIED'' ''USB permission denied'') s)
                 \<lparr>permissionPromise := None\<rparr>
      | None \<Rightarrow>
          (settle (permissionPromise s)
             (Rejected ''PERMISSION_DENIED'' ''USB permission denied'') s)
            \<lparr>permissionPromise := None\<rparr>)"

text \<open>\<open>listDevices\<close>: the map built for each device, with the keys the code puts.\<close>

definition deviceInfo :: "UsbDevice \<Rightarrow> (string \<times> jsval) list" where
  "deviceInfo device =
     [(''deviceName'', JStr (deviceName device)),
      (''vendorId'', JInt (vendorId device)),
      (''productId'', JInt (productId device)),
      (''manufacturer'',
         JStr (case manufacturerName device of None \<Rightarrow> ''Unknown'' | Some m \<Rightarrow> m)),
      (''product'', JStr (case productName device of None \<Rightarrow> ''Unknown'' | Some m \<Rightarrow> m)),
      (''serialNumber'', JStr (case serialNumber device of None \<Rightarrow> [] | Some m \<Rightarrow> m)),
      (''deviceClass'', JInt (deviceClass device)),
      (''deviceSubclass'', JInt (deviceSubclass device))]"

definition listDevices :: "platform \<Rightarrow> promise \<Rightarrow> module_state \<Rightarrow> module_state" where
  "listDevices env promise s =
     settle (Some promise) (Resolved (JArr (map (\<lambda>d. JMap (deviceInfo d)) (deviceList env))))
       (fold (\<lambda>device. requestPermission device promise 115200) (deviceList env) s)"

text \<open>
  The method \<open>write\<close> (named \<open>write_data\<close> here, \<open>write\<close> being reserved):
  \<open>data.getInt(i).toByte()\<close> keeps the low eight bits.
\<close>

definition write_data :: "platform \<Rightarrow> int list \<Rightarrow> promise \<Rightarrow> module_state \<Rightarrow> module_state" where
  "write_data env data promise s =
     (if \<not> isConnected s \<or> serialPort s = None
      then settle (Some promise) (Rejected ''NOT_CONNECTED'' ''Device not connected'') s
      else
        (let buffer = map (\<lambda>i. (word_of_int i :: byte)) data
         in case portWrite env buffer of
              Some e \<Rightarrow>
                settle (Some promise) (Rejected ''WRITE_ERROR'' (''Write failed: '' @ message e)) s
            | None \<Rightarrow> settle (Some promise) (Resolved (JInt (int (length buffer)))) s))"

text \<open>
  The drain launched by \<open>read\<close>. Each turn of the loop reads the clock and polls the
  queue; meanwhile the read loop may offer bytes. A tick gives, for one turn, the
  milliseconds elapsed since the start as the loop test reads them and the bytes offered
  to the queue before the poll. The list of ticks ends when the schedule is exhausted: a
  drain whose window has not elapsed by then has not returned (\<open>None\<close>).
  \<open>byte.toInt() and 0xFF\<close> is \<open>sint byte AND 255\<close>.
\<close>

type_synonym tick = "int \<times> byte list"

fun drain :: "int \<Rightarrow> tick list \<Rightarrow> byte list \<Rightarrow> int list \<Rightarrow> (int list \<times> byte list) option" where
  "drain timeout [] q result = None"
| "drain timeout ((elapsed, offered) # ticks) q result =
     (if elapsed < timeout
      then (case q @ offered of
              [] \<Rightarrow> drain timeout ticks [] result
            | byte # q' \<Rightarrow> drain timeout ticks q' (result @ [sint byte AND 255]))
      else Some (result, q))"

definition read ::
  "int \<Rightarrow> promise \<Rightarrow> tick list \<Rightarrow> module_state \<Rightarrow> module_state option" where
  "read timeout promise ticks s =
     (if \<not> isConnected s
      then Some (settle (Some promise) (Rejected ''NOT_CONNECTED'' ''Device not connected'') s)
      else case drain timeout ticks (readBuffer s) [] of
             None \<Rightarrow> None
           | Some (result, q) \<Rightarrow>
               Some (settle (Some promise) (Resolved (JArr (map JInt result)))
                       (s\<lparr>readBuffer := q\<rparr>)))"

definition flush :: "promise \<Rightarrow> module_state \<Rightarrow> module_state" where
  "flush promise s = settle (Some promise) (Resolved (JBool True)) (s\<lparr>readBuffer := []\<rparr>)"

text \<open>
  \<open>disconnect\<close>: \<open>readJob?.cancel()\<close>, then \<open>serialPort?.close()\<close>; when \<open>close\<close>
  throws, the assignments after it are skipped and the promise is rejected.
\<close>

definition disconnect :: "platform \<Rightarrow> promise option \<Rightarrow> module_state \<Rightarrow> module_state" where
  "disconnect env promise s =
     (let s1 = s\<lparr>readJob := map_option (\<lambda>_. Cancelled) (readJob s)\<rparr>
      in case (case serialPort s1 of None \<Rightarrow> None | Some port \<Rightarrow> portClose env port) of
           Some e \<Rightarrow> settle promise (Rejected ''DISCONNECT_ERROR'' (message e)) s1
         | None \<Rightarrow>
             settle promise (Resolved (JBool True))
               (s1\<lparr>serialPort := None, isConnected := False, readBuffer := []\<rparr>))"

text \<open>
  One turn of the loop of \<open>startReading\<close> in which \<open>serialPort.read\<close> returns the
  bytes \<open>received\<close>: they are offered to the queue in order.
\<close>

definition readLoop_offer :: "byte list \<Rightarrow> module_state \<Rightarrow> module_state" where
  "readLoop_offer received s =
     (if isConnected s \<and> serialPort s \<noteq> None
      then s\<lparr>readBuffer := readBuffer s @ received\<rparr>
      else s)"

section \<open>The TypeScript facade \<open>SerialTransport\<close>\<close>

text \<open>
  An error raised in JavaScript: one thrown by the facade itself (\<open>new Error(msg)\<close>), or
  the one \<open>await\<close> throws for a promise the native module rejected (code and message).
\<close>

datatype jsError =
    Error string
  | BridgeError string string

text \<open>The interface \<open>ConnectionResult\<close>, and a bridge value read at that type.\<close>

record ConnectionResult =
  result_connected :: bool
  result_deviceName :: "string option"
  result_baudRate :: "int option"
  result_error :: "string option"

definition property :: "jsval \<Rightarrow> string \<Rightarrow> jsval" where
  "property v k =
     (case v of
        JMap m \<Rightarrow> (case map_of m k of Some x \<Rightarrow> x | None \<Rightarrow> JUndefined)
      | _ \<Rightarrow> JUndefined)"

definition asConnectionResult :: "jsval \<Rightarrow> ConnectionResult" where
  "asConnectionResult v =
     \<lparr>result_connected = (property v ''connected'' = JBool True),
      result_deviceName = (case property v ''deviceName'' of JStr n \<Rightarrow> Some n | _ \<Rightarrow> None),
      result_baudRate = (case property v ''baudRate'' of JInt b \<Rightarrow> Some b | _ \<Rightarrow> None),
      result_error = (case property v ''error'' of JStr e \<Rightarrow> Some e | _ \<Rightarrow> None)\<rparr>"

fun asNumber :: "jsval \<Rightarrow> int" where
  "asNumber (JInt i) = i"
| "asNumber _ = 0"

fun asNumbers :: "jsval \<Rightarrow> int list" where
  "asNumbers (JArr xs) = map asNumber xs"
| "asNumbers _ = []"

text \<open>\<open>new Uint8Array(data)\<close>: every number is stored modulo 256.\<close>

definition Uint8Array :: "int list \<Rightarrow> byte list" where
  "Uint8Array data = map word_of_int data"

text \<open>Decimal digits, for the numbers inside template strings.\<close>

fun digits :: "nat \<Rightarrow> string" where
  "digits n =
     (if n < 10 then [''0123456789'' ! n]
      else digits (n div 10) @ [''0123456789'' ! (n mod 10)])"

declare digits.simps [simp del]

definition numberToString :: "int \<Rightarrow> string" where
  "numberToString i = (if i < 0 then CHR ''-'' # digits (nat (- i)) else digits (nat i))"

definition show_deviceName :: "string option \<Rightarrow> string" where
  "show_deviceName n = (case n of None \<Rightarrow> ''undefined'' | Some x \<Rightarrow> x)"

definition show_baudRate :: "int option \<Rightarrow> string" where
  "show_baudRate b = (case b of None \<Rightarrow> ''undefined'' | Some x \<Rightarrow> numberToString x)"

record SerialTransport =
  this_connected :: bool
  this_deviceName :: "string option"
  this_baudRate :: "int option"

definition transport_init :: SerialTransport where
  "transport_init = \<lparr>this_connected = False, this_deviceName = None, this_baudRate = None\<rparr>"

text \<open>
  \<open>SerialTransport.connect\<close> from the point where the awaited promise is settled: a
  rejection is thrown by \<open>await\<close> and leaves the method; a resolution runs the rest.
\<close>

definition connect_resume ::
  "SerialTransport \<Rightarrow> outcome \<Rightarrow> (jsError + string) \<times> SerialTransport" where
  "connect_resume this out =
     (case out of
        Rejected code msg \<Rightarrow> (Inl (BridgeError code msg), this)
      | Resolved v \<Rightarrow>
         (let result = asConnectionResult v;
              this1 = this\<lparr>this_connected := result_connected result\<rparr>;
              this2 = (if this_connected this1
                       then this1\<lparr>this_deviceName := result_deviceName result,
                                  this_baudRate := result_baudRate result\<rparr>
                       else this1)
          in (Inr (if this_connected this2
                   then ''Connected to '' @ show_deviceName (this_deviceName this2) @ '' at ''
                          @ show_baudRate (this_baudRate this2) @ '' band''
                   else ''Failed to connect: ''
                          @ (case result_error result of
                               None \<Rightarrow> ''Unknown error''
                             | Some e \<Rightarrow> if e = [] then ''Unknown error'' else e)),
              this2)))"

text \<open>
  The whole method on promise \<open>p\<close>: the native call, then the \<open>await\<close>. The result is
  \<open>None\<close> while the promise is unsettled (the method is suspended).
\<close>

definition SerialTransport_connect ::
  "platform \<Rightarrow> string option \<Rightarrow> int option \<Rightarrow> promise \<Rightarrow> SerialTransport \<Rightarrow> module_state \<Rightarrow>
     ((jsError + string) \<times> SerialTransport) option \<times> module_state" where
  "SerialTransport_connect env name baudRate p this s =
     (let s' = connect env name (case baudRate of None \<Rightarrow> 115200 | Some b \<Rightarrow> b) p s
      in (map_option (connect_resume this) (await p s'), s'))"

definition awaited :: "outcome \<Rightarrow> jsError + jsval" where
  "awaited out =
     (case out of
        Rejected code msg \<Rightarrow> Inl (BridgeError code msg)
      | Resolved v \<Rightarrow> Inr v)"

definition SerialTransport_write ::
  "platform \<Rightarrow> byte list \<Rightarrow> promise \<Rightarrow> SerialTransport \<Rightarrow> module_state \<Rightarrow>
     (jsError + jsval) option \<times> module_state" where
  "SerialTransport_write env data p this s =
     (if \<not> this_connected this
      then (Some (Inl (Error ''Not connected to any device'')), s)
      else
        (let dataArray = map uint data;
             s' = write_data env dataArray p s
         in (map_option awaited (await p s'), s')))"

text \<open>
  The generator \<open>read\<close>, run to its end: the list of the chunks it yields. The result is
  \<open>None\<close> when the drain has not returned within the schedule given.
\<close>

definition SerialTransport_read ::
  "int option \<Rightarrow> promise \<Rightarrow> tick list \<Rightarrow> SerialTransport \<Rightarrow> module_state \<Rightarrow>
     ((jsError + byte list list) \<times> module_state) option" where
  "SerialTransport_read timeout p ticks this s =
     (if \<not> this_connected this
      then Some (Inl (Error ''Not connected to any device''), s)
      else
        (case read (case timeout of None \<Rightarrow> 1000 | Some t \<Rightarrow> t) p ticks s of
           None \<Rightarrow> None
         | Some s' \<Rightarrow>
            (case await p s' of
               None \<Rightarrow> None
             | Some (Rejected code msg) \<Rightarrow> Some (Inl (BridgeError code msg), s')
             | Some (Resolved v) \<Rightarrow>
                 (let data = asNumbers v
                  in Some (Inr (if length data > 0 then [Uint8Array data] else []), s')))))"

definition SerialTransport_rawRead ::
  "int option \<Rightarrow> promise \<Rightarrow> tick list \<Rightarrow> SerialTransport \<Rightarrow> module_state \<Rightarrow>
     ((jsError + byte list) \<times> module_state) option" where
  "SerialTransport_rawRead timeout p ticks this s =
     (if \<not> this_connected this
      then Some (Inl (Error ''Not connected to any device''), s)
      else
        (case read (case timeout of None \<Rightarrow> 1000 | Some t \<Rightarrow> t) p ticks s of
           None \<Rightarrow> None
         | Some s' \<Rightarrow>
            (case await p s' of
               None \<Rightarrow> None
             | Some (Rejected code msg) \<Rightarrow> Some (Inl (BridgeError code msg), s')
             | Some (Resolved v) \<Rightarrow> Some (Inr (Uint8Array (asNumbers v)), s'))))"

text \<open>The interface \<open>USBDevice\<close> of the TypeScript declarations: its field names.\<close>

definition USBDevice_fields :: "string list" where
  "USBDevice_fields =
     [''deviceName'', ''vendorId'', ''productId'', ''manufacturerName'', ''productName'',
      ''serialNumber'', ''deviceClass'', ''deviceSubclass'', ''portCount'']"

section \<open>Concrete platforms\<close>

definition esp32 :: UsbDevice where
  "esp32 =
     \<lparr>deviceName = ''/dev/bus/usb/001/002'', vendorId = 0x10C4, productId = 0xEA60,
      manufacturerName = Some ''Silicon Labs'', productName = Some ''CP2102'',
      serialNumber = Some ''0001'', deviceClass = 0, deviceSubclass = 0\<rparr>"

definition mouse :: UsbDevice where
  "mouse =
     \<lparr>deviceName = ''/dev/bus/usb/001/003'', vendorId = 0x046D, productId = 0xC077,
      manufacturerName = None, productName = Some ''USB Optical Mouse'',
      serialNumber = None, deviceClass = 0, deviceSubclass = 0\<rparr>"

text \<open>A mouse and a CP210x adapter, every permission granted, no driver call failing.\<close>

definition bench :: platform where
  "bench =
     \<lparr>deviceList = [mouse, esp32], hasPermission = (\<lambda>_. True),
      probeDevice = (\<lambda>_. True), openDevice = (\<lambda>_. True), firstPort = (\<lambda>_. None),
      portOpen = (\<lambda>_. None),
      portSetParameters = (\<lambda>_. None), portSetDTR = (\<lambda>_. None), portSetRTS = (\<lambda>_. None),
      portWrite = (\<lambda>_. None), portClose = (\<lambda>_. None)\<rparr>"

text \<open>The same devices, no permission granted yet.\<close>

definition locked :: platform where
  "locked = bench\<lparr>hasPermission := (\<lambda>_. False)\<rparr>"

text \<open>No device attached.\<close>

definition unplugged :: platform where
  "unplugged = bench\<lparr>deviceList := []\<rparr>"

text \<open>The module after \<open>connect(null, 115200)\<close> on the bench: a session is open.\<close>

definition online :: module_state where
  "online = connect bench None 115200 0 module_init"

text \<open>The session after the read loop has offered three bytes (as signed: -1, -128, 127).\<close>

definition buffered :: module_state where
  "buffered = readLoop_offer [255, 128, 127] online"

section \<open>Notions used in the statements\<close>

text \<open>
  The specification's words for the device a \<open>connect\<close> call is to select: with no
  name given, a device whose vendor id is one of 0x10C4, 0x1A86, 0x0403; with a name, the
  device of exactly that name.
\<close>

fun candidate :: "string option \<Rightarrow> UsbDevice \<Rightarrow> bool" where
  "candidate None device = (vendorId device \<in> {0x10C4, 0x1A86, 0x0403})"
| "candidate (Some n) device = (deviceName device = n)"

text \<open>
  Two \<open>connect\<close> calls in a row on the platform without permissions: the first leaves a
  permission request pending, the second arrives while it is pending.
\<close>

definition pending1 :: module_state where
  "pending1 = connect locked None 115200 1 module_init"

definition pending2 :: module_state where
  "pending2 = connect locked None 115200 2 pending1"

text \<open>
  The exception thrown by \<open>serialPort?.close()\<close> in \<open>disconnect\<close>, if any: nothing is
  called when there is no port.
\<close>

definition release :: "platform \<Rightarrow> module_state \<Rightarrow> exn option" where
  "release env s = (case serialPort s of None \<Rightarrow> None | Some port \<Rightarrow> portClose env port)"

text \<open>The state \<open>Disconnected\<close>: no session, no port handle, an empty queue.\<close>

definition Disconnected :: "module_state \<Rightarrow> bool" where
  "Disconnected s = (\<not> isConnected s \<and> serialPort s = None \<and> readBuffer s = [])"

text \<open>The bench with a driver whose \<open>close\<close> throws.\<close>

definition stuck :: platform where
  "stuck = bench\<lparr>portClose := (\<lambda>_. Some (IOException ''Already closed''))\<rparr>"

text \<open>The facade after a successful \<open>connect()\<close> on the bench.\<close>

definition idle :: SerialTransport where
  "idle =
     \<lparr>this_connected = True, this_deviceName = Some ''/dev/bus/usb/001/002'',
      this_baudRate = Some 115200\<rparr>"

text \<open>The session \<open>buffered\<close> after one drain has taken its three bytes.\<close>

definition drained :: module_state where
  "drained =
     buffered\<lparr>readBuffer := [],
              settled := settled buffered
                @ [(1, Resolved (JArr [JInt 255, JInt 128, JInt 127]))]\<rparr>"

text \<open>The idle session \<open>online\<close> after one drain that found nothing.\<close>

definition drained_empty :: module_state where
  "drained_empty = online\<lparr>settled := settled online @ [(1, Resolved (JArr []))]\<rparr>"

text \<open>
  A sequence of \<open>SerialTransport.connect\<close> calls, each given by its arguments and its
  promise. A call still suspended at its \<open>await\<close> leaves the facade as it was.
\<close>

fun connect_attempts ::
  "platform \<Rightarrow> (string option \<times> int option \<times> promise) list \<Rightarrow> SerialTransport \<times> module_state
     \<Rightarrow> SerialTransport \<times> module_state" where
  "connect_attempts env [] ts = ts"
| "connect_attempts env ((name, baudRate, p) # calls) (this, s) =
     (case SerialTransport_connect env name baudRate p this s of
        (None, s') \<Rightarrow> connect_attempts env calls (this, s')
      | (Some (r, this'), s') \<Rightarrow> connect_attempts env calls (this', s'))"

text \<open>No promise has been resolved so far: no \<open>connect\<close> has succeeded.\<close>

fun is_rejection :: "promise \<times> outcome \<Rightarrow> bool" where
  "is_rejection (q, Rejected code msg) = True"
| "is_rejection (q, Resolved v) = False"

definition no_success :: "module_state \<Rightarrow> bool" where
  "no_success s = list_all is_rejection (settled s)"

text \<open>As long as no promise has been resolved, neither layer holds a session.\<close>

definition offline :: "SerialTransport \<times> module_state \<Rightarrow> bool" where
  "offline ts = (no_success (snd ts) \<longrightarrow> \<not> this_connected (fst ts) \<and> \<not> isConnected (snd ts))"

text \<open>
  What \<open>write\<close> settles its promise with once the test for a session has passed: the
  size of the buffer, or \<open>WRITE_ERROR\<close> when the driver's \<open>write\<close> throws.
\<close>

definition write_outcome :: "platform \<Rightarrow> byte list \<Rightarrow> outcome" where
  "write_outcome env buffer =
     (case portWrite env buffer of
        None \<Rightarrow> Resolved (JInt (int (length buffer)))
      | Some e \<Rightarrow> Rejected ''WRITE_ERROR'' (''Write failed: '' @ message e))"

text \<open>
  What happens to the queue of an open session, one event after the other: the read
  loop offers the bytes of one \<open>serialPort.read\<close>, a \<open>read\<close> call runs its drain
  (with the ticks of that drain), or \<open>flush\<close> is called. \<open>run\<close> is \<open>None\<close> when a
  drain has not returned within its ticks.
\<close>

datatype event =
    Offer "byte list"
  | Read int promise "tick list"
  | Flush promise

fun run :: "event list \<Rightarrow> module_state \<Rightarrow> module_state option" where
  "run [] s = Some s"
| "run (Offer received # es) s = run es (readLoop_offer received s)"
| "run (Read timeout p ticks # es) s =
     (case read timeout p ticks s of None \<Rightarrow> None | Some s' \<Rightarrow> run es s')"
| "run (Flush p # es) s = run es (flush p s)"

text \<open>
  The bytes the device sent during the events: those offered between the drains, and
  those offered during a drain before its window elapsed.
\<close>

fun offered_during :: "int \<Rightarrow> tick list \<Rightarrow> byte list" where
  "offered_during timeout [] = []"
| "offered_during timeout ((elapsed, offered) # ticks) =
     (if elapsed < timeout then offered @ offered_during timeout ticks else [])"

fun received_by :: "event list \<Rightarrow> byte list" where
  "received_by [] = []"
| "received_by (Offer received # es) = received @ received_by es"
| "received_by (Read timeout p ticks # es) = offered_during timeout ticks @ received_by es"
| "received_by (Flush p # es) = received_by es"

text \<open>
  The bytes JavaScript has observed: the arrays of numbers the promises were resolved
  with, one after the other in the order of the log.
\<close>

fun observed :: "promise \<times> outcome \<Rightarrow> int list" where
  "observed (p, Resolved v) = asNumbers v"
| "observed (p, Rejected code msg) = []"

definition delivered :: "module_state \<Rightarrow> int list" where
  "delivered s = concat (map observed (settled s))"

text \<open>The event is a \<open>flush\<close> call.\<close>

fun is_flush :: "event \<Rightarrow> bool" where
  "is_flush (Flush p) = True"
| "is_flush _ = False"

text \<open>The schedule of a drain reaches the end of its window.\<close>

fun window_elapses :: "event \<Rightarrow> bool" where
  "window_elapses (Read timeout p ticks) = list_ex (\<lambda>tick. timeout \<le> fst tick) ticks"
| "window_elapses _ = True"

text \<open>
  Traffic on the session \<open>online\<close>: two drains with bytes arriving before, during and
  after them, and the state it ends in.
\<close>

definition traffic :: "event list" where
  "traffic =
     [Offer [1, 200], Read 2 1 [(0, []), (1, [3]), (2, [])], Offer [4],
      Read 1 2 [(0, []), (5, [])], Offer [5]]"

definition served :: module_state where
  "served =
     online\<lparr>readBuffer := [4, 5],
            settled := settled online
              @ [(1, Resolved (JArr [JInt 1, JInt 200])), (2, Resolved (JArr [JInt 3]))]\<rparr>"






text \<open>The permission is denied while the second request is pending.\<close>

definition denied2 :: module_state where
  "denied2 = onPermissionResult locked False (Some esp32) pending2"

text \<open>
  A driver whose \<open>open\<close> and \<open>close\<close> both throw, and the module after a \<open>connect\<close>
  on it: no session, but the port handle is kept.
\<close>

definition jammed :: platform where
  "jammed = stuck\<lparr>portOpen := (\<lambda>_. Some (IOException ''Could not open''))\<rparr>"

definition halfopen :: module_state where
  "halfopen = connect jammed None 115200 1 module_init"

text \<open>
  \<open>listDevices\<close> on the platform without permissions, then the user grants the
  permission for the adapter: no \<open>connect\<close> call is made.
\<close>

definition listed :: module_state where
  "listed = listDevices locked 1 module_init"

definition opened_by_listing :: module_state where
  "opened_by_listing = onPermissionResult bench True (Some esp32) listed"

text \<open>Then the module's \<open>write\<close> is called with three bytes.\<close>

definition written :: module_state where
  "written = write_data bench [1, 2, 255] 2 opened_by_listing"

text \<open>
  The loop turns of a drain that fall inside its window, each with the bytes offered
  before its poll; and the number of bytes received by the \<open>j\<close>-th poll, those queued
  at the start included.
\<close>

fun window :: "int \<Rightarrow> tick list \<Rightarrow> byte list list" where
  "window timeout [] = []"
| "window timeout ((elapsed, offered) # ticks) =
     (if elapsed < timeout then offered # window timeout ticks else [])"

definition available :: "byte list \<Rightarrow> byte list list \<Rightarrow> nat \<Rightarrow> nat" where
  "available q w j = length q + length (concat (take j w))"

text \<open>
  A drain of \<open>n\<close> bytes takes whatever is available: one byte per turn at most, no
  byte before it was received, and either a byte at every turn of the window or, from
  some poll on at which everything received so far had been taken, a byte at every
  later turn.
\<close>

definition work_conserving :: "byte list \<Rightarrow> byte list list \<Rightarrow> nat \<Rightarrow> bool" where
  "work_conserving q w n =
     (n \<le> length w
      \<and> (\<forall>j\<in>{1..length w}. n \<le> available q w j + (length w - j))
      \<and> (n = length w \<or> (\<exists>j\<in>{1..length w}. n = available q w j + (length w - j))))"

text \<open>A drain on the idle session during which three bytes arrive at the third turn.\<close>

definition late :: "tick list" where
  "late = [(0, []), (1, []), (2, [7, 8, 9]), (3, []), (4, [])]"

definition late_served :: module_state where
  "late_served =
     online\<lparr>readBuffer := [9],
            settled := settled online @ [(3, Resolved (JArr [JInt 7, JInt 8]))]\<rparr>"

section \<open>Evaluation of the concrete platforms\<close>

lemmas fixture_defs =
  esp32_def mouse_def bench_def locked_def unplugged_def module_init_def transport_init_def

lemmas native_defs =
  connect_def targetDevice_def knownVendor_def openDeviceInternal_def configure_def
  requestPermission_def settle_def await_def startReading_def connectionResult_def

lemma online_eval:
  "online =
     \<lparr>serialPort = Some \<lparr>port_device = ''/dev/bus/usb/001/002'', port_opened = True,
                          port_baudRate = 115200, port_dtr = True, port_rts = True\<rparr>,
      isConnected = True, readBuffer = [], readJob = Some Active,
      permissionPromise = None, requested = [],
      settled = [(0, Resolved (JMap [(''connected'', JBool True),
                                     (''deviceName'', JStr ''/dev/bus/usb/001/002''),
                                     (''baudRate'', JInt 115200)]))]\<rparr>"
  by (simp add: online_def fixture_defs native_defs)

lemma buffered_eval:
  "buffered = online\<lparr>readBuffer := [255, 128, 127]\<rparr>"
  by (simp add: buffered_def readLoop_offer_def online_eval)

section \<open>Connecting while a session is open\<close>

text \<open>
  Claim C5. In every state in which a session is open, \<open>connect\<close> rejects its promise
  with \<open>ALREADY_CONNECTED\<close> and changes nothing else: the connection flag, the port,
  the queue and every other field of the module are as before; only the rejection is
  added to the log.
\<close>

theorem connect_while_connected:
  "isConnected s \<Longrightarrow>
     connect env name baudRate p s =
       s\<lparr>settled := settled s
            @ [(p, Rejected ''ALREADY_CONNECTED'' ''Already connected to a device'')]\<rparr>"
  by (simp add: connect_def settle_def)

theorem connect_while_connected_witness:
  "isConnected buffered \<and>
   connect unplugged (Some ''/dev/ttyUSB0'') 9600 1 buffered =
     buffered\<lparr>settled := settled buffered
                @ [(1, Rejected ''ALREADY_CONNECTED'' ''Already connected to a device'')]\<rparr>"
  using connect_while_connected [of buffered unplugged "Some ''/dev/ttyUSB0''" 9600 1]
  by (simp add: buffered_eval online_eval)

section \<open>The range of the values delivered by \<open>read\<close>\<close>

lemma byte_mask_range: "0 \<le> sint (b :: byte) AND 255 \<and> sint b AND 255 \<le> 255"
  by (simp add: AND_upper2)

lemma drain_range:
  "drain timeout ticks q acc = Some (res, q') \<Longrightarrow> \<forall>x\<in>set acc. 0 \<le> x \<and> x \<le> 255 \<Longrightarrow>
     \<forall>x\<in>set res. 0 \<le> x \<and> x \<le> 255"
proof (induction ticks arbitrary: q acc)
  case Nil
  then show ?case by simp
next
  case (Cons t ticks)
  obtain elapsed offered where t: "t = (elapsed, offered)" by (cases t)
  show ?case
  proof (cases "elapsed < timeout")
    case False
    with Cons.prems t show ?thesis by simp
  next
    case True
    show ?thesis
    proof (cases "q @ offered")
      case Nil
      with Cons.prems t True have "drain timeout ticks [] acc = Some (res, q')" by simp
      from Cons.IH [OF this Cons.prems(2)] show ?thesis .
    next
      case (Cons b q'')
      with Cons.prems t True
      have d: "drain timeout ticks q'' (acc @ [sint b AND 255]) = Some (res, q')" by simp
      have "\<forall>x\<in>set (acc @ [sint b AND 255]). 0 \<le> x \<and> x \<le> 255"
        using Cons.prems(2) byte_mask_range [of b] by auto
      from Cons.IH [OF d this] show ?thesis .
    qed
  qed
qed

text \<open>
  Claim C10. For every connected session and every timeout, when the drain of \<open>read\<close>
  returns, the promise is resolved with an array of integers each of which lies between 0
  and 255 inclusive: the signed bytes of the queue are masked with \<open>0xFF\<close>.
\<close>

theorem read_bytes_in_range:
  assumes "isConnected s" and "read timeout p ticks s = Some s'"
  shows "\<exists>result. settled s' = settled s @ [(p, Resolved (JArr (map JInt result)))]
           \<and> (\<forall>x\<in>set result. 0 \<le> x \<and> x \<le> 255)"
proof -
  from assms obtain result q where d: "drain timeout ticks (readBuffer s) [] = Some (result, q)"
    and s': "s' = settle (Some p) (Resolved (JArr (map JInt result))) (s\<lparr>readBuffer := q\<rparr>)"
    by (auto simp: read_def split: option.splits)
  from drain_range [OF d] have "\<forall>x\<in>set result. 0 \<le> x \<and> x \<le> 255" by simp
  with s' show ?thesis by (auto simp: settle_def)
qed

theorem read_bytes_in_range_witness:
  "isConnected buffered \<and>
   read 3 1 [(0, []), (1, []), (2, []), (3, [])] buffered
     = Some (buffered\<lparr>readBuffer := [],
                      settled := settled buffered
                        @ [(1, Resolved (JArr [JInt 255, JInt 128, JInt 127]))]\<rparr>) \<and>
   (\<exists>result. settled (buffered\<lparr>readBuffer := [],
                                settled := settled buffered
                                  @ [(1, Resolved (JArr [JInt 255, JInt 128, JInt 127]))]\<rparr>)
                = settled buffered @ [(1, Resolved (JArr (map JInt result)))]
              \<and> (\<forall>x\<in>set result. 0 \<le> x \<and> x \<le> 255))"
proof -
  have c: "isConnected buffered"
    by (simp add: buffered_eval online_eval)
  have r: "read 3 1 [(0, []), (1, []), (2, []), (3, [])] buffered
     = Some (buffered\<lparr>readBuffer := [],
                      settled := settled buffered
                        @ [(1, Resolved (JArr [JInt 255, JInt 128, JInt 127]))]\<rparr>)"
    by (simp add: read_def settle_def buffered_eval online_eval)
  from c r read_bytes_in_range [OF c r] show ?thesis by blast
qed

section \<open>The facade's \<open>connect\<close> when the native \<open>connect\<close> fails\<close>

text \<open>
  Claim C1, evaluated with no device attached. The native \<open>connect\<close> rejects its promise
  with \<open>NO_DEVICE\<close>; the \<open>await\<close> in \<open>SerialTransport.connect\<close> throws that
  rejection, so the method raises and the line building \<open>Failed to connect: ...\<close> is
  not reached. The cached state is left as it was. The same holds for every rejection:
  the method raises it, whatever its code.
\<close>

theorem facade_connect_raises_without_device:
  "fst (SerialTransport_connect unplugged None None 1 transport_init module_init)
     = Some (Inl (BridgeError ''NO_DEVICE'' ''No compatible USB device found''),
             transport_init)
   \<and> (\<forall>this code msg.
         connect_resume this (Rejected code msg) = (Inl (BridgeError code msg), this))"
  by (simp add: SerialTransport_connect_def connect_resume_def fixture_defs native_defs)

section \<open>The descriptors of \<open>listDevices\<close>\<close>

text \<open>
  Claim C9, evaluated on the bench. \<open>listDevices\<close> resolves with one map per device;
  each map has eight keys. The field \<open>portCount\<close> of the interface \<open>USBDevice\<close> is
  not among them (nor are \<open>manufacturerName\<close> and \<open>productName\<close>: the strings are put
  under \<open>manufacturer\<close> and \<open>product\<close>), so JavaScript reads \<open>undefined\<close> for it.
\<close>

theorem listDevices_has_no_portCount:
  "await 1 (listDevices bench 1 module_init)
     = Some (Resolved (JArr [JMap (deviceInfo mouse), JMap (deviceInfo esp32)])) \<and>
   map fst (deviceInfo esp32)
     = [''deviceName'', ''vendorId'', ''productId'', ''manufacturer'', ''product'',
        ''serialNumber'', ''deviceClass'', ''deviceSubclass''] \<and>
   property (JMap (deviceInfo esp32)) ''portCount'' = JUndefined \<and>
   filter (\<lambda>k. map_of (deviceInfo esp32) k = None) USBDevice_fields
     = [''manufacturerName'', ''productName'', ''portCount'']"
  by (simp add: listDevices_def deviceInfo_def property_def USBDevice_fields_def
      bench_def module_init_def requestPermission_def settle_def await_def)

section \<open>The device \<open>connect\<close> selects\<close>

lemma find_first:
  "xs = before @ x # after \<Longrightarrow> P x \<Longrightarrow> \<forall>y\<in>set before. \<not> P y \<Longrightarrow> find P xs = Some x"
  by (induction before arbitrary: xs) auto

lemma targetDevice_candidate:
  "targetDevice env name = find (candidate name) (deviceList env)"
proof (cases name)
  case None
  have "knownVendor = candidate None"
    by (rule ext) (simp add: knownVendor_def Let_def)
  with None show ?thesis by (simp add: targetDevice_def)
next
  case (Some n)
  have "(\<lambda>it. deviceName it = n) = candidate (Some n)"
    by (rule ext) simp
  with Some show ?thesis by (simp add: targetDevice_def)
qed

text \<open>
  Claim C4. With no session open: when the device list is \<open>before @ device # after\<close>,
  \<open>device\<close> is a candidate (no name given: its vendor id is 0x10C4, 0x1A86 or 0x0403;
  a name given: its name is exactly that name) and no device of \<open>before\<close> is one, then
  \<open>connect\<close> goes on with that device: it opens it, or asks for the permission to.
  When no device is a candidate, and so when the list is empty, \<open>connect\<close> rejects
  its promise with \<open>NO_DEVICE\<close> and changes nothing else.
\<close>

theorem connect_device_selection:
  assumes "\<not> isConnected s"
  shows "(\<forall>before device after.
            deviceList env = before @ device # after \<and> candidate name device
              \<and> (\<forall>d\<in>set before. \<not> candidate name d)
            \<longrightarrow> connect env name baudRate p s
                  = (if hasPermission env device
                     then openDeviceInternal env device (Some p) baudRate s
                     else requestPermission device p baudRate s))
       \<and> ((\<forall>d\<in>set (deviceList env). \<not> candidate name d)
            \<longrightarrow> connect env name baudRate p s
                  = settle (Some p) (Rejected ''NO_DEVICE'' ''No compatible USB device found'') s)
       \<and> (deviceList env = []
            \<longrightarrow> connect env name baudRate p s
                  = settle (Some p) (Rejected ''NO_DEVICE'' ''No compatible USB device found'') s)"
proof (intro conjI allI impI)
  fix before device after
  assume h: "deviceList env = before @ device # after \<and> candidate name device
              \<and> (\<forall>d\<in>set before. \<not> candidate name d)"
  then have "targetDevice env name = Some device"
    by (simp add: targetDevice_candidate find_first [of _ before device after])
  with assms show "connect env name baudRate p s
                  = (if hasPermission env device
                     then openDeviceInternal env device (Some p) baudRate s
                     else requestPermission device p baudRate s)"
    by (simp add: connect_def)
next
  assume "\<forall>d\<in>set (deviceList env). \<not> candidate name d"
  then have "targetDevice env name = None"
    by (simp add: targetDevice_candidate find_None_iff)
  with assms show "connect env name baudRate p s
                  = settle (Some p) (Rejected ''NO_DEVICE'' ''No compatible USB device found'') s"
    by (simp add: connect_def)
next
  assume "deviceList env = []"
  then have "targetDevice env name = None"
    by (simp add: targetDevice_candidate)
  with assms show "connect env name baudRate p s
                  = settle (Some p) (Rejected ''NO_DEVICE'' ''No compatible USB device found'') s"
    by (simp add: connect_def)
qed

theorem connect_device_selection_witness:
  "connect bench None 115200 1 module_init = openDeviceInternal bench esp32 (Some 1) 115200 module_init
   \<and> connect locked (Some ''/dev/bus/usb/001/003'') 9600 1 module_init = requestPermission mouse 1 9600 module_init
   \<and> connect (bench\<lparr>deviceList := [mouse]\<rparr>) None 115200 1 module_init
        = settle (Some 1) (Rejected ''NO_DEVICE'' ''No compatible USB device found'') module_init
   \<and> connect bench (Some ''COM1'') 115200 1 module_init
        = settle (Some 1) (Rejected ''NO_DEVICE'' ''No compatible USB device found'') module_init
   \<and> connect unplugged None 115200 1 module_init
        = settle (Some 1) (Rejected ''NO_DEVICE'' ''No compatible USB device found'') module_init"
proof -
  have n: "\<not> isConnected module_init" by (simp add: module_init_def)
  have 1: "connect bench None 115200 1 module_init = openDeviceInternal bench esp32 (Some 1) 115200 module_init"
    using connect_device_selection [OF n, of bench None 115200 1, THEN conjunct1, rule_format, of "[mouse]" esp32 "[]"]
    by (simp add: bench_def esp32_def mouse_def)
  have 2: "connect locked (Some ''/dev/bus/usb/001/003'') 9600 1 module_init = requestPermission mouse 1 9600 module_init"
    using connect_device_selection [OF n, of locked "Some ''/dev/bus/usb/001/003''" 9600 1, THEN conjunct1, rule_format, of "[]" mouse "[esp32]"]
    by (simp add: locked_def bench_def esp32_def mouse_def)
  have 3: "connect (bench\<lparr>deviceList := [mouse]\<rparr>) None 115200 1 module_init
        = settle (Some 1) (Rejected ''NO_DEVICE'' ''No compatible USB device found'') module_init"
    using connect_device_selection [OF n, of "bench\<lparr>deviceList := [mouse]\<rparr>" None 115200 1, THEN conjunct2, THEN conjunct1]
    by (simp add: bench_def mouse_def)
  have 4: "connect bench (Some ''COM1'') 115200 1 module_init
        = settle (Some 1) (Rejected ''NO_DEVICE'' ''No compatible USB device found'') module_init"
    using connect_device_selection [OF n, of bench "Some ''COM1''" 115200 1, THEN conjunct2, THEN conjunct1]
    by (simp add: bench_def mouse_def esp32_def)
  have 5: "connect unplugged None 115200 1 module_init
        = settle (Some 1) (Rejected ''NO_DEVICE'' ''No compatible USB device found'') module_init"
    using connect_device_selection [OF n, of unplugged None 115200 1, THEN conjunct2, THEN conjunct2]
    by (simp add: unplugged_def bench_def)
  from 1 2 3 4 5 show ?thesis by blast
qed

section \<open>The pending permission request\<close>

lemma open_failure_rejects: "\<exists>code msg. open_failure e = Rejected code msg"
  by (cases e) simp_all













lemma pending1_eval: "pending1 = module_init\<lparr>permissionPromise := Some 1, requested := [''/dev/bus/usb/001/002'']\<rparr>"
  by (simp add: pending1_def fixture_defs native_defs)

lemma pending2_eval: "pending2 = module_init\<lparr>permissionPromise := Some 2, requested := [''/dev/bus/usb/001/002'', ''/dev/bus/usb/001/002'']\<rparr>"
  by (simp add: pending2_def pending1_eval fixture_defs native_defs)


lemma denied2_eval:
  "denied2 = module_init\<lparr>requested := [''/dev/bus/usb/001/002'', ''/dev/bus/usb/001/002''],
               settled := [(2, Rejected ''PERMISSION_DENIED'' ''USB permission denied'')]\<rparr>"
  by (simp add: denied2_def pending2_eval module_init_def onPermissionResult_def settle_def)


section \<open>Promises and their first settlement\<close>

lemma await_fresh_settle:
  "await p s = None \<Longrightarrow> settled s' = settled s \<Longrightarrow> await p (settle (Some p) out s') = Some out"
  by (simp add: await_def settle_def map_of_append map_add_def)

section \<open>\<open>disconnect\<close> twice\<close>

lemma disconnect_cases:
  "disconnect env promise s =
     (case release env s of
        Some e \<Rightarrow> settle promise (Rejected ''DISCONNECT_ERROR'' (message e))
                    (s\<lparr>readJob := map_option (\<lambda>_. Cancelled) (readJob s)\<rparr>)
      | None \<Rightarrow> settle promise (Resolved (JBool True))
                  (s\<lparr>readJob := map_option (\<lambda>_. Cancelled) (readJob s), serialPort := None,
                     isConnected := False, readBuffer := []\<rparr>))"
  by (simp add: disconnect_def release_def Let_def)

text \<open>
  Claim C7, as amended. For every state and platform, a second \<open>disconnect\<close> right
  after a first changes nothing in the module but the log, where it repeats the outcome
  of the first: disconnect after disconnect equals disconnect. With no port handle
  held, and whenever the driver's \<open>close\<close> does not throw, \<open>disconnect\<close> resolves
  \<open>true\<close> and the state is \<open>Disconnected\<close>; so when the first call has succeeded,
  the second succeeds too, as a no-op, and the state is \<open>Disconnected\<close>. When
  \<open>close\<close> throws, the call is rejected with \<open>DISCONNECT_ERROR\<close> and the connection
  flag, the port handle and the queue are left as they were.
\<close>

theorem disconnect_idempotent:
  "(\<exists>out s1. disconnect env (Some p) s = settle (Some p) out s1
        \<and> disconnect env (Some q) (disconnect env (Some p) s)
            = settle (Some q) out (disconnect env (Some p) s))
   \<and> (serialPort s = None \<longrightarrow> release env s = None)
   \<and> (release env s = None
        \<longrightarrow> disconnect env (Some p) s
              = settle (Some p) (Resolved (JBool True))
                  (s\<lparr>readJob := map_option (\<lambda>_. Cancelled) (readJob s), serialPort := None,
                     isConnected := False, readBuffer := []\<rparr>)
            \<and> Disconnected (disconnect env (Some p) s))
   \<and> (await p s = None \<and> await p (disconnect env (Some p) s) = Some (Resolved (JBool True))
         \<longrightarrow> disconnect env (Some q) (disconnect env (Some p) s)
              = settle (Some q) (Resolved (JBool True)) (disconnect env (Some p) s)
            \<and> Disconnected (disconnect env (Some q) (disconnect env (Some p) s)))
   \<and> (release env s = Some e
        \<longrightarrow> disconnect env (Some p) s
              = settle (Some p) (Rejected ''DISCONNECT_ERROR'' (message e))
                  (s\<lparr>readJob := map_option (\<lambda>_. Cancelled) (readJob s)\<rparr>))"
proof (intro conjI impI)
  show "\<exists>out s1. disconnect env (Some p) s = settle (Some p) out s1
        \<and> disconnect env (Some q) (disconnect env (Some p) s)
            = settle (Some q) out (disconnect env (Some p) s)"
  proof (cases "release env s")
    case None
    let ?s1 = "s\<lparr>readJob := map_option (\<lambda>_. Cancelled) (readJob s), serialPort := None,
                     isConnected := False, readBuffer := []\<rparr>"
    have 1: "disconnect env (Some p) s = settle (Some p) (Resolved (JBool True)) ?s1"
      using None by (simp add: disconnect_cases)
    have 2: "disconnect env (Some q) (settle (Some p) (Resolved (JBool True)) ?s1)
              = settle (Some q) (Resolved (JBool True))
                  (settle (Some p) (Resolved (JBool True)) ?s1)"
      by (simp add: disconnect_cases release_def settle_def option.map_comp comp_def)
    from 1 2 show ?thesis by auto
  next
    case (Some e)
    let ?s1 = "s\<lparr>readJob := map_option (\<lambda>_. Cancelled) (readJob s)\<rparr>"
    let ?out = "Rejected ''DISCONNECT_ERROR'' (message e)"
    have 1: "disconnect env (Some p) s = settle (Some p) ?out ?s1"
      using Some by (simp add: disconnect_cases)
    have r: "release env (settle (Some p) ?out ?s1) = Some e"
      using Some by (simp add: release_def settle_def)
    have 2: "disconnect env (Some q) (settle (Some p) ?out ?s1)
              = settle (Some q) ?out (settle (Some p) ?out ?s1)"
      using r by (simp add: disconnect_cases) (simp add: settle_def option.map_comp comp_def)
    from 1 2 show ?thesis by auto
  qed
next
  assume "serialPort s = None"
  then show "release env s = None" by (simp add: release_def)
next
  assume r: "release env s = None"
  then show "disconnect env (Some p) s
              = settle (Some p) (Resolved (JBool True))
                  (s\<lparr>readJob := map_option (\<lambda>_. Cancelled) (readJob s), serialPort := None,
                     isConnected := False, readBuffer := []\<rparr>)"
    by (simp add: disconnect_cases)
  from r show "Disconnected (disconnect env (Some p) s)"
    by (simp add: disconnect_cases Disconnected_def settle_def)
next
  assume h: "await p s = None \<and> await p (disconnect env (Some p) s) = Some (Resolved (JBool True))"
  have r: "release env s = None"
  proof (cases "release env s")
    case None then show ?thesis .
  next
    case (Some e)
    with h show ?thesis
      by (simp add: disconnect_cases settle_def await_def map_add_def map_of_append
          split: option.splits)
  qed
  let ?s1 = "s\<lparr>readJob := map_option (\<lambda>_. Cancelled) (readJob s), serialPort := None,
                     isConnected := False, readBuffer := []\<rparr>"
  have 1: "disconnect env (Some p) s = settle (Some p) (Resolved (JBool True)) ?s1"
    using r by (simp add: disconnect_cases)
  have 2: "disconnect env (Some q) (settle (Some p) (Resolved (JBool True)) ?s1)
              = settle (Some q) (Resolved (JBool True))
                  (settle (Some p) (Resolved (JBool True)) ?s1)"
    by (simp add: disconnect_cases release_def settle_def option.map_comp comp_def)
  have 3: "Disconnected (settle (Some q) (Resolved (JBool True))
                           (settle (Some p) (Resolved (JBool True)) ?s1))"
    by (simp add: Disconnected_def settle_def)
  from 1 2 show "disconnect env (Some q) (disconnect env (Some p) s)
              = settle (Some q) (Resolved (JBool True)) (disconnect env (Some p) s)" by simp
  from 1 2 3 show "Disconnected (disconnect env (Some q) (disconnect env (Some p) s))" by simp
next
  assume "release env s = Some e"
  then show "disconnect env (Some p) s
              = settle (Some p) (Rejected ''DISCONNECT_ERROR'' (message e))
                  (s\<lparr>readJob := map_option (\<lambda>_. Cancelled) (readJob s)\<rparr>)"
    by (simp add: disconnect_cases)
qed

lemma halfopen_eval:
  "halfopen =
     module_init\<lparr>serialPort := Some \<lparr>port_device = ''/dev/bus/usb/001/002'',
                                        port_opened = False, port_baudRate = 0,
                                        port_dtr = False, port_rts = False\<rparr>,
                  settled := [(1, Rejected ''IO_ERROR'' ''IO error: Could not open'')]\<rparr>"
  by (simp add: halfopen_def jammed_def stuck_def fixture_defs native_defs)

text \<open>
  Claim C7 as stated fails when the driver's \<open>close\<close> throws. On an open session both
  \<open>disconnect\<close> calls are rejected with \<open>DISCONNECT_ERROR\<close> and the session stays
  open: the second call does not succeed and the state is not \<open>Disconnected\<close>. And
  with no session open but the port handle kept by a failed \<open>connect\<close>,
  \<open>disconnect\<close> is rejected too.
\<close>

theorem disconnect_rejected_when_close_throws:
  "isConnected buffered
   \<and> disconnect stuck (Some 2) (disconnect stuck (Some 1) buffered)
       = buffered\<lparr>readJob := Some Cancelled,
                   settled := settled buffered
                     @ [(1, Rejected ''DISCONNECT_ERROR'' ''Already closed''),
                        (2, Rejected ''DISCONNECT_ERROR'' ''Already closed'')]\<rparr>
   \<and> await 2 (disconnect stuck (Some 2) (disconnect stuck (Some 1) buffered))
       = Some (Rejected ''DISCONNECT_ERROR'' ''Already closed'')
   \<and> isConnected (disconnect stuck (Some 2) (disconnect stuck (Some 1) buffered))
   \<and> \<not> Disconnected (disconnect stuck (Some 2) (disconnect stuck (Some 1) buffered))
   \<and> \<not> isConnected halfopen
   \<and> await 2 (disconnect jammed (Some 2) halfopen)
       = Some (Rejected ''DISCONNECT_ERROR'' ''Already closed'')"
  by (simp add: buffered_eval online_eval halfopen_eval module_init_def disconnect_def
      Disconnected_def jammed_def stuck_def bench_def settle_def await_def)

theorem disconnect_idempotent_witness:
  "disconnect bench (Some 2) (disconnect bench (Some 1) buffered)
     = settle (Some 2) (Resolved (JBool True)) (disconnect bench (Some 1) buffered)
   \<and> Disconnected (disconnect bench (Some 2) (disconnect bench (Some 1) buffered))
   \<and> release bench buffered = None
   \<and> Disconnected (disconnect bench (Some 1) buffered)
   \<and> serialPort module_init = None \<and> release stuck module_init = None
   \<and> disconnect stuck (Some 1) module_init
       = settle (Some 1) (Resolved (JBool True)) module_init
   \<and> Disconnected (disconnect stuck (Some 1) module_init)
   \<and> (\<exists>out s1. disconnect stuck (Some 1) buffered = settle (Some 1) out s1
         \<and> disconnect stuck (Some 2) (disconnect stuck (Some 1) buffered)
             = settle (Some 2) out (disconnect stuck (Some 1) buffered))
   \<and> release stuck buffered = Some (IOException ''Already closed'')
   \<and> disconnect stuck (Some 1) buffered
       = settle (Some 1) (Rejected ''DISCONNECT_ERROR'' ''Already closed'')
           (buffered\<lparr>readJob := Some Cancelled\<rparr>)"
proof -
  have a: "await 1 buffered = None
           \<and> await 1 (disconnect bench (Some 1) buffered) = Some (Resolved (JBool True))"
    by (simp add: buffered_eval online_eval disconnect_def bench_def settle_def await_def)
  have b: "serialPort module_init = None"
    by (simp add: module_init_def)
  have c: "release bench buffered = None"
    by (simp add: release_def buffered_eval online_eval bench_def)
  have d: "release stuck buffered = Some (IOException ''Already closed'')"
    by (simp add: release_def buffered_eval online_eval stuck_def)
  have e: "module_init\<lparr>readJob := map_option (\<lambda>_. Cancelled) (readJob module_init),
                        serialPort := None, isConnected := False, readBuffer := []\<rparr>
           = module_init"
    by (simp add: module_init_def)
  have f: "buffered\<lparr>readJob := map_option (\<lambda>_. Cancelled) (readJob buffered)\<rparr>
           = buffered\<lparr>readJob := Some Cancelled\<rparr>"
    by (simp add: buffered_eval online_eval)
  note 1 = disconnect_idempotent [where env = bench and p = 1 and q = 2 and s = buffered,
         THEN conjunct2, THEN conjunct2, THEN conjunct2, THEN conjunct1, rule_format, OF a]
  note 2 = disconnect_idempotent [where env = stuck and s = module_init,
         THEN conjunct2, THEN conjunct1, rule_format, OF b]
  note 3 = disconnect_idempotent [where env = stuck and p = 1 and s = module_init,
         THEN conjunct2, THEN conjunct2, THEN conjunct1, rule_format, OF 2, unfolded e]
  note 4 = disconnect_idempotent [where env = bench and p = 1 and s = buffered,
         THEN conjunct2, THEN conjunct2, THEN conjunct1, rule_format, OF c]
  note 5 = disconnect_idempotent [where env = stuck and p = 1 and q = 2 and s = buffered,
         THEN conjunct1]
  note 6 = disconnect_idempotent [where env = stuck and p = 1 and s = buffered
         and e = "IOException ''Already closed''",
         THEN conjunct2, THEN conjunct2, THEN conjunct2, THEN conjunct2, rule_format, OF d,
         unfolded f message.simps]
  from 1 2 3 4 5 6 b c d show ?thesis by blast
qed

section \<open>\<open>read\<close> and \<open>rawRead\<close> of the facade\<close>

text \<open>
  Claim C8. For a connected session (the facade's flag and the module's), a timeout and a
  promise not settled before: \<open>read\<close> and \<open>rawRead\<close> each make the one native
  \<open>read\<close> call, so they leave the module in the state that one drain leaves it in
  (and have not returned while that drain has not). The generator yields at most one
  chunk and never an empty one; \<open>rawRead\<close> returns the concatenation of the chunks of
  \<open>read\<close>.
\<close>

theorem read_rawRead_single_drain:
  assumes "this_connected this" and "isConnected s" and "await p s = None"
  shows "case read (case timeout of None \<Rightarrow> 1000 | Some t \<Rightarrow> t) p ticks s of
           None \<Rightarrow> SerialTransport_read timeout p ticks this s = None
                  \<and> SerialTransport_rawRead timeout p ticks this s = None
         | Some s' \<Rightarrow>
             (\<exists>chunks. SerialTransport_read timeout p ticks this s = Some (Inr chunks, s')
                \<and> SerialTransport_rawRead timeout p ticks this s = Some (Inr (concat chunks), s')
                \<and> length chunks \<le> 1 \<and> [] \<notin> set chunks)"
proof (cases "read (case timeout of None \<Rightarrow> 1000 | Some t \<Rightarrow> t) p ticks s")
  case None
  with assms show ?thesis
    by (simp add: SerialTransport_read_def SerialTransport_rawRead_def)
next
  case (Some s')
  with assms(2) obtain result q'
    where s': "s' = settle (Some p) (Resolved (JArr (map JInt result))) (s\<lparr>readBuffer := q'\<rparr>)"
    by (auto simp: read_def split: option.splits)
  have aw: "await p s' = Some (Resolved (JArr (map JInt result)))"
    unfolding s' using assms(3) by (intro await_fresh_settle [of p s]) simp_all
  have num: "asNumbers (JArr (map JInt result)) = result"
    by (simp add: comp_def)
  show ?thesis
    using Some assms(1) aw num
    by (simp add: SerialTransport_read_def SerialTransport_rawRead_def Uint8Array_def)
qed

theorem read_rawRead_single_drain_witness:
  "this_connected idle \<and> isConnected buffered \<and> await 1 buffered = None
   \<and> read 3 1 [(0, []), (1, []), (2, []), (3, [])] buffered = Some drained
   \<and> SerialTransport_read (Some 3) 1 [(0, []), (1, []), (2, []), (3, [])] idle buffered
       = Some (Inr [[255, 128, 127]], drained)
   \<and> SerialTransport_rawRead (Some 3) 1 [(0, []), (1, []), (2, []), (3, [])] idle buffered
       = Some (Inr [255, 128, 127], drained)
   \<and> read 1000 1 [(0, []), (1000, [])] online = Some drained_empty
   \<and> SerialTransport_read None 1 [(0, []), (1000, [])] idle online = Some (Inr [], drained_empty)
   \<and> SerialTransport_rawRead None 1 [(0, []), (1000, [])] idle online
       = Some (Inr [], drained_empty)"
proof -
  have a: "this_connected idle" "isConnected buffered" "await 1 buffered = None"
          "isConnected online" "await 1 online = None"
    by (simp_all add: idle_def buffered_eval online_eval await_def)
  have r: "read 3 1 [(0, []), (1, []), (2, []), (3, [])] buffered = Some drained"
    by (simp add: read_def settle_def drained_def buffered_eval online_eval)
  have e: "read 1000 1 [(0, []), (1000, [])] online = Some drained_empty"
    by (simp add: read_def settle_def drained_empty_def online_eval)
  have f: "SerialTransport_read (Some 3) 1 [(0, []), (1, []), (2, []), (3, [])] idle buffered
       = Some (Inr [[255, 128, 127]], drained)"
    by (simp add: SerialTransport_read_def r [simplified] idle_def)
       (simp add: Uint8Array_def drained_def buffered_eval online_eval await_def)
  have g: "SerialTransport_read None 1 [(0, []), (1000, [])] idle online
       = Some (Inr [], drained_empty)"
    by (simp add: SerialTransport_read_def e [simplified] idle_def)
       (simp add: drained_empty_def online_eval await_def)
  from read_rawRead_single_drain [OF a(1) a(2) a(3), of "Some 3" "[(0, []), (1, []), (2, []), (3, [])]"]
       read_rawRead_single_drain [OF a(1) a(4) a(5), of None "[(0, []), (1000, [])]"]
  show ?thesis
    using a r e f g by auto
qed

section \<open>\<open>write\<close> before and after a successful \<open>connect\<close>\<close>

lemma openDeviceInternal_outcome:
  "(\<exists>code msg s1. openDeviceInternal env device (Some p) baudRate s
        = settle (Some p) (Rejected code msg) s1
      \<and> settled s1 = settled s \<and> isConnected s1 = isConnected s)
   \<or> (\<exists>port. openDeviceInternal env device (Some p) baudRate s
       = settle (Some p) (Resolved (connectionResult device baudRate))
           (s\<lparr>serialPort := Some port, isConnected := True, readJob := Some Active\<rparr>))"
proof (cases "probeDevice env device \<and> openDevice env device")
  case False
  then have "\<exists>code msg. openDeviceInternal env device (Some p) baudRate s
        = settle (Some p) (Rejected code msg) s"
    by (auto simp: openDeviceInternal_def)
  then show ?thesis by blast
next
  case True
  show ?thesis
  proof (cases "firstPort env device")
    case (Some x)
    from open_failure_rejects [of x] obtain code msg
      where "open_failure x = Rejected code msg" by blast
    with True Some have "openDeviceInternal env device (Some p) baudRate s
        = settle (Some p) (Rejected code msg) s"
      by (simp add: openDeviceInternal_def)
    then show ?thesis by blast
  next
    case None
    let ?port0 = "\<lparr>port_device = deviceName device, port_opened = False,
                    port_baudRate = 0, port_dtr = False, port_rts = False\<rparr>"
    obtain e port where c: "configure env device baudRate ?port0 = (e, port)"
      by (cases "configure env device baudRate ?port0")
    show ?thesis
    proof (cases e)
      case None
      with True \<open>firstPort env device = None\<close> c
      have "openDeviceInternal env device (Some p) baudRate s
       = settle (Some p) (Resolved (connectionResult device baudRate))
           (s\<lparr>serialPort := Some port, isConnected := True, readJob := Some Active\<rparr>)"
        by (simp add: openDeviceInternal_def startReading_def)
      then show ?thesis by blast
    next
      case (Some x)
      from open_failure_rejects [of x] obtain code msg
        where "open_failure x = Rejected code msg" by blast
      with True \<open>firstPort env device = None\<close> c Some
      have "openDeviceInternal env device (Some p) baudRate s
        = settle (Some p) (Rejected code msg) (s\<lparr>serialPort := Some port\<rparr>)"
        by (simp add: openDeviceInternal_def)
      then have "\<exists>code msg s1. openDeviceInternal env device (Some p) baudRate s
        = settle (Some p) (Rejected code msg) s1
          \<and> settled s1 = settled s \<and> isConnected s1 = isConnected s"
        by (intro exI [of _ code] exI [of _ msg] exI [of _ "s\<lparr>serialPort := Some port\<rparr>"]) simp
      then show ?thesis by blast
    qed
  qed
qed

lemma connect_outcome:
  "(\<exists>code msg s1. connect env name baudRate p s = settle (Some p) (Rejected code msg) s1
        \<and> settled s1 = settled s \<and> isConnected s1 = isConnected s)
   \<or> (settled (connect env name baudRate p s) = settled s
        \<and> isConnected (connect env name baudRate p s) = isConnected s)
   \<or> (\<exists>device port. \<not> isConnected s \<and> connect env name baudRate p s
       = settle (Some p) (Resolved (connectionResult device baudRate))
           (s\<lparr>serialPort := Some port, isConnected := True, readJob := Some Active\<rparr>))"
proof (cases "isConnected s")
  case True
  then have "connect env name baudRate p s
      = settle (Some p) (Rejected ''ALREADY_CONNECTED'' ''Already connected to a device'') s"
    by (simp add: connect_def)
  then show ?thesis by blast
next
  case False
  show ?thesis
  proof (cases "targetDevice env name")
    case None
    with False have "connect env name baudRate p s
      = settle (Some p) (Rejected ''NO_DEVICE'' ''No compatible USB device found'') s"
      by (simp add: connect_def)
    then show ?thesis by blast
  next
    case (Some device)
    show ?thesis
    proof (cases "hasPermission env device")
      case False
      with Some \<open>\<not> isConnected s\<close> show ?thesis
        by (simp add: connect_def requestPermission_def)
    next
      case True
      with Some \<open>\<not> isConnected s\<close>
      have c: "connect env name baudRate p s = openDeviceInternal env device (Some p) baudRate s"
        by (simp add: connect_def)
      from openDeviceInternal_outcome [of env device p baudRate s] c \<open>\<not> isConnected s\<close>
      show ?thesis by auto
    qed
  qed
qed

lemma no_success_settle_reject:
  "no_success (settle (Some p) (Rejected code msg) s1) = no_success s1"
  by (simp add: no_success_def settle_def)

lemma no_success_settle_resolve:
  "\<not> no_success (settle (Some p) (Resolved v) s1)"
  by (simp add: no_success_def settle_def)

lemma no_success_await:
  "no_success s \<Longrightarrow> await p s = Some out \<Longrightarrow> \<exists>code msg. out = Rejected code msg"
proof -
  assume n: "no_success s" and a: "await p s = Some out"
  from a have "(p, out) \<in> set (settled s)" by (simp add: await_def map_of_SomeD)
  with n have "is_rejection (p, out)" by (simp add: no_success_def list_all_iff)
  then show ?thesis by (cases out) auto
qed

lemma no_success_connect:
  "no_success (connect env name baudRate p s) \<Longrightarrow> no_success s \<and> isConnected (connect env name baudRate p s) = isConnected s"
  using connect_outcome [of env name baudRate p s]
  by (auto simp: no_success_settle_reject no_success_settle_resolve no_success_def settle_def)

lemma offline_step:
  assumes "offline (this, s)"
      and "SerialTransport_connect env name baudRate p this s = (r, s')"
  shows "offline (case r of None \<Rightarrow> this | Some (x, this') \<Rightarrow> this', s')"
proof -
  let ?b = "case baudRate of None \<Rightarrow> 115200 | Some b \<Rightarrow> b"
  from assms(2) have s': "s' = connect env name ?b p s"
    and r: "r = map_option (connect_resume this) (await p s')"
    by (auto simp: SerialTransport_connect_def Let_def)
  show ?thesis
    unfolding offline_def
  proof (intro impI)
    assume n: "no_success (snd (case r of None \<Rightarrow> this | Some (x, this') \<Rightarrow> this', s'))"
    then have n': "no_success s'" by simp
    with s' no_success_connect [of env name ?b p s]
    have ns: "no_success s" and c: "isConnected s' = isConnected s" by auto
    from ns assms(1) have o: "\<not> this_connected this" "\<not> isConnected s" by (auto simp: offline_def)
    have "\<not> this_connected (case r of None \<Rightarrow> this | Some (x, this') \<Rightarrow> this')"
    proof (cases "await p s'")
      case None
      with r o show ?thesis by simp
    next
      case (Some out)
      with no_success_await [OF n'] obtain code msg where "out = Rejected code msg" by blast
      with Some r o show ?thesis by (simp add: connect_resume_def)
    qed
    with c o show "\<not> this_connected (fst (case r of None \<Rightarrow> this | Some (x, this') \<Rightarrow> this', s'))
        \<and> \<not> isConnected (snd (case r of None \<Rightarrow> this | Some (x, this') \<Rightarrow> this', s'))"
      by simp
  qed
qed

lemma offline_attempts:
  "offline ts \<Longrightarrow> offline (connect_attempts env calls ts)"
proof (induction calls arbitrary: ts)
  case Nil
  then show ?case by simp
next
  case (Cons call calls)
  obtain name baudRate p where call: "call = (name, baudRate, p)" by (cases call)
  obtain this s where ts: "ts = (this, s)" by (cases ts)
  obtain r s' where c: "SerialTransport_connect env name baudRate p this s = (r, s')"
    by (cases "SerialTransport_connect env name baudRate p this s")
  from offline_step [OF Cons.prems [unfolded ts] c]
  have "offline (case r of None \<Rightarrow> this | Some (x, this') \<Rightarrow> this', s')" .
  from Cons.IH [OF this] show ?case
    using call ts c by (auto split: option.splits)
qed

lemma write_data_connected:
  "isConnected s \<Longrightarrow> serialPort s \<noteq> None \<Longrightarrow>
     write_data env numbers p s = settle (Some p) (write_outcome env (map word_of_int numbers)) s"
  by (auto simp: write_data_def write_outcome_def Let_def split: option.split)

lemma connect_success:
  assumes "await c s_a = None"
      and "SerialTransport_connect env name baudRate c this_a s_a = (Some (Inr msg, this_b), s_b)"
  shows "this_connected this_b \<and> isConnected s_b \<and> serialPort s_b \<noteq> None"
proof -
  let ?b = "case baudRate of None \<Rightarrow> 115200 | Some b \<Rightarrow> b"
  from assms(2) have s_b: "s_b = connect env name ?b c s_a"
    and r: "map_option (connect_resume this_a) (await c s_b) = Some (Inr msg, this_b)"
    by (auto simp: SerialTransport_connect_def Let_def)
  from connect_outcome [of env name ?b c s_a]
  consider (rejected) code m s' where "s_b = settle (Some c) (Rejected code m) s'" "settled s' = settled s_a"
    | (pending) "settled s_b = settled s_a"
    | (opened) device port where "s_b = settle (Some c) (Resolved (connectionResult device ?b))
           (s_a\<lparr>serialPort := Some port, isConnected := True, readJob := Some Active\<rparr>)"
    unfolding s_b by blast
  then show ?thesis
  proof cases
    case rejected
    with assms(1) have "await c s_b = Some (Rejected code m)"
      by (simp add: await_fresh_settle)
    with r show ?thesis by (simp add: connect_resume_def)
  next
    case pending
    with assms(1) have "await c s_b = None" by (simp add: await_def)
    with r show ?thesis by simp
  next
    case opened
    with assms(1) have "await c s_b = Some (Resolved (connectionResult device ?b))"
      by (simp add: await_fresh_settle)
    with r have "this_connected this_b"
      by (auto simp: connect_resume_def asConnectionResult_def property_def connectionResult_def Let_def)
    with opened show ?thesis by (simp add: settle_def)
  qed
qed

text \<open>
  Where \<open>write\<close> does need a \<open>connect\<close>. After any sequence of
  \<open>SerialTransport.connect\<close> calls on a fresh facade and module during which no
  promise has been resolved, the facade's \<open>write\<close> raises its own error "Not
  connected to any device" without calling the module, and the module's \<open>write\<close>
  rejects with \<open>NOT_CONNECTED\<close>. Right after a \<open>connect\<close> that has returned its
  status string, \<open>write\<close> settles its promise with the size of the buffer, or with
  \<open>WRITE_ERROR\<close> when the driver's write throws, never with \<open>NOT_CONNECTED\<close>.
\<close>

lemma write_between_connect_calls:
  "(connect_attempts env calls (transport_init, module_init) = (this, s) \<and> no_success s
      \<longrightarrow> SerialTransport_write env data p this s
            = (Some (Inl (Error ''Not connected to any device'')), s)
          \<and> write_data env numbers p s
            = settle (Some p) (Rejected ''NOT_CONNECTED'' ''Device not connected'') s)
   \<and> (await c s_a = None
        \<and> SerialTransport_connect env name baudRate c this_a s_a = (Some (Inr msg, this_b), s_b)
        \<and> await p s_b = None
      \<longrightarrow> write_data env numbers p s_b
            = settle (Some p) (write_outcome env (map word_of_int numbers)) s_b
          \<and> SerialTransport_write env data p this_b s_b
            = (Some (awaited (write_outcome env data)), settle (Some p) (write_outcome env data) s_b)
          \<and> (\<forall>m. write_outcome env data \<noteq> Rejected ''NOT_CONNECTED'' m)
          \<and> (portWrite env data = None
               \<longrightarrow> write_outcome env data = Resolved (JInt (int (length data)))))"
proof (intro conjI impI allI)
  assume h: "connect_attempts env calls (transport_init, module_init) = (this, s) \<and> no_success s"
  have "offline (transport_init, module_init)"
    by (simp add: offline_def transport_init_def module_init_def)
  from offline_attempts [OF this, of env calls] h
  have o: "\<not> this_connected this" "\<not> isConnected s"
    by (auto simp: offline_def)
  from o(1) show "SerialTransport_write env data p this s
            = (Some (Inl (Error ''Not connected to any device'')), s)"
    by (simp add: SerialTransport_write_def)
  from o(2) show "write_data env numbers p s
            = settle (Some p) (Rejected ''NOT_CONNECTED'' ''Device not connected'') s"
    by (simp add: write_data_def)
next
  assume h: "await c s_a = None
        \<and> SerialTransport_connect env name baudRate c this_a s_a = (Some (Inr msg, this_b), s_b)
        \<and> await p s_b = None"
  then have on: "this_connected this_b" "isConnected s_b" "serialPort s_b \<noteq> None"
    using connect_success [of c s_a env name baudRate this_a msg this_b s_b] by auto
  from on show w: "write_data env numbers p s_b
            = settle (Some p) (write_outcome env (map word_of_int numbers)) s_b"
    by (simp add: write_data_connected)
  have "map word_of_int (map uint data) = data"
    by (simp add: comp_def)
  moreover from h have "await p (settle (Some p) (write_outcome env data) s_b)
      = Some (write_outcome env data)"
    by (intro await_fresh_settle [of p s_b s_b]) simp_all
  ultimately show "SerialTransport_write env data p this_b s_b
            = (Some (awaited (write_outcome env data)), settle (Some p) (write_outcome env data) s_b)"
    using on by (simp add: SerialTransport_write_def write_data_connected Let_def)
next
  fix m
  show "write_outcome env data \<noteq> Rejected ''NOT_CONNECTED'' m"
    by (simp add: write_outcome_def split: option.split)
next
  assume "portWrite env data = None"
  then show "write_outcome env data = Resolved (JInt (int (length data)))"
    by (simp add: write_outcome_def)
qed

lemma listed_eval:
  "listed =
     module_init\<lparr>permissionPromise := Some 1,
                  requested := [''/dev/bus/usb/001/003'', ''/dev/bus/usb/001/002''],
                  settled := [(1, Resolved (JArr [JMap (deviceInfo mouse),
                                                  JMap (deviceInfo esp32)]))]\<rparr>"
  by (simp add: listed_def listDevices_def locked_def bench_def mouse_def esp32_def
      module_init_def requestPermission_def settle_def)

lemma opened_by_listing_eval:
  "opened_by_listing =
     listed\<lparr>serialPort := Some \<lparr>port_device = ''/dev/bus/usb/001/002'', port_opened = True,
                                    port_baudRate = 115200, port_dtr = True, port_rts = True\<rparr>,
             isConnected := True, readJob := Some Active, permissionPromise := None,
             settled := settled listed @ [(1, Resolved (connectionResult esp32 115200))]\<rparr>"
  by (simp add: opened_by_listing_def listed_eval onPermissionResult_def openDeviceInternal_def
      configure_def startReading_def settle_def bench_def esp32_def module_init_def)

text \<open>
  Claim C6, evaluated after \<open>listDevices\<close> and a granted permission, no \<open>connect\<close>
  call having been made. \<open>listDevices\<close> asks for the permission of every device with
  its own promise; when the user grants it, the broadcast receiver opens the device and
  sets \<open>isConnected\<close>. The module's \<open>write\<close> then resolves with the number of bytes
  instead of rejecting with \<open>NOT_CONNECTED\<close>, while the facade, whose flag is still
  false, raises "Not connected to any device".
\<close>

theorem write_resolves_without_connect:
  "\<not> isConnected listed \<and> permissionPromise listed = Some 1
   \<and> map fst (settled opened_by_listing) = [1, 1]
   \<and> isConnected opened_by_listing
   \<and> written = settle (Some 2) (Resolved (JInt 3)) opened_by_listing
   \<and> await 2 written = Some (Resolved (JInt 3))
   \<and> SerialTransport_write bench [1, 2, 255] 2 transport_init opened_by_listing
       = (Some (Inl (Error ''Not connected to any device'')), opened_by_listing)"
  by (simp add: written_def opened_by_listing_eval listed_eval module_init_def
      transport_init_def write_data_def SerialTransport_write_def settle_def await_def
      bench_def)

section \<open>The order of the bytes delivered by successive drains\<close>

lemma byte_mask_uint: "sint (b :: byte) AND 255 = uint b"
proof -
  have "uint b = take_bit 8 (sint b)"
    by (simp add: uint_sint)
  also have "\<dots> = sint b AND mask 8"
    by (simp add: take_bit_eq_mask)
  finally show ?thesis by (simp add: mask_eq_exp_minus_1)
qed

lemma drain_fifo:
  "drain timeout ticks q acc = Some (res, q') \<Longrightarrow>
     res @ map uint q' = acc @ map uint (q @ offered_during timeout ticks)"
proof (induction ticks arbitrary: q acc)
  case Nil
  then show ?case by simp
next
  case (Cons t ticks)
  obtain elapsed offered where t: "t = (elapsed, offered)" by (cases t)
  show ?case
  proof (cases "elapsed < timeout")
    case False
    with Cons.prems t show ?thesis by simp
  next
    case True
    show ?thesis
    proof (cases "q @ offered")
      case Nil
      with Cons.prems t True have "drain timeout ticks [] acc = Some (res, q')" by simp
      from Cons.IH [OF this] Nil t True show ?thesis by simp
    next
      case (Cons b q'')
      with Cons.prems t True
      have "drain timeout ticks q'' (acc @ [sint b AND 255]) = Some (res, q')" by simp
      from Cons.IH [OF this]
      have "res @ map uint q' = acc @ uint b # map uint (q'' @ offered_during timeout ticks)"
        by (simp add: byte_mask_uint)
      also have "\<dots> = acc @ map uint ((q @ offered) @ offered_during timeout ticks)"
        unfolding Cons by simp
      finally show ?thesis using t True by simp
    qed
  qed
qed

lemma drain_returns:
  "list_ex (\<lambda>tick. timeout \<le> fst tick) ticks \<Longrightarrow> drain timeout ticks q acc \<noteq> None"
proof (induction ticks arbitrary: q acc)
  case Nil
  then show ?case by simp
next
  case (Cons t ticks)
  obtain elapsed offered where t: "t = (elapsed, offered)" by (cases t)
  show ?case
  proof (cases "elapsed < timeout")
    case False
    with t show ?thesis by simp
  next
    case True
    with Cons.prems t have "list_ex (\<lambda>tick. timeout \<le> fst tick) ticks" by simp
    from Cons.IH [OF this] True t show ?thesis
      by (simp split: list.split)
  qed
qed

lemma read_fifo:
  assumes "isConnected s" and "read timeout p ticks s = Some s'"
  shows "\<exists>result. settled s' = settled s @ [(p, Resolved (JArr (map JInt result)))]
           \<and> result @ map uint (readBuffer s')
               = map uint (readBuffer s @ offered_during timeout ticks)
           \<and> isConnected s' \<and> serialPort s' = serialPort s"
proof -
  from assms obtain result q where d: "drain timeout ticks (readBuffer s) [] = Some (result, q)"
    and s': "s' = settle (Some p) (Resolved (JArr (map JInt result))) (s\<lparr>readBuffer := q\<rparr>)"
    by (auto simp: read_def split: option.splits)
  from drain_fifo [OF d] s' assms(1) show ?thesis
    by (auto simp: settle_def)
qed

lemma run_fifo:
  "isConnected s \<Longrightarrow> serialPort s \<noteq> None \<Longrightarrow> \<forall>e\<in>set es. \<not> is_flush e \<Longrightarrow>
   run es s = Some s' \<Longrightarrow>
     delivered s' @ map uint (readBuffer s')
       = delivered s @ map uint (readBuffer s @ received_by es)"
proof (induction es arbitrary: s)
  case Nil
  then show ?case by simp
next
  case (Cons e es)
  show ?case
  proof (cases e)
    case (Offer received)
    let ?s1 = "readLoop_offer received s"
    have s1: "?s1 = s\<lparr>readBuffer := readBuffer s @ received\<rparr>"
      using Cons.prems(1,2) by (simp add: readLoop_offer_def)
    from Cons.prems Offer have "run es ?s1 = Some s'" "\<forall>e\<in>set es. \<not> is_flush e" by simp_all
    from Cons.IH [OF _ _ this(2) this(1)] Cons.prems(1,2) s1
    have "delivered s' @ map uint (readBuffer s')
       = delivered ?s1 @ map uint (readBuffer ?s1 @ received_by es)" by simp
    with s1 Offer show ?thesis by (simp add: delivered_def)
  next
    case (Read timeout p ticks)
    with Cons.prems obtain s1 where r: "read timeout p ticks s = Some s1" and rest: "run es s1 = Some s'"
      by (auto split: option.splits)
    from read_fifo [OF Cons.prems(1) r] obtain result
      where l: "settled s1 = settled s @ [(p, Resolved (JArr (map JInt result)))]"
        and f: "result @ map uint (readBuffer s1) = map uint (readBuffer s @ offered_during timeout ticks)"
        and c: "isConnected s1" "serialPort s1 = serialPort s" by blast
    from l have d: "delivered s1 = delivered s @ result"
      by (simp add: delivered_def comp_def)
    from Cons.prems have "\<forall>e\<in>set es. \<not> is_flush e" by simp
    from Cons.IH [OF c(1) _ this rest] c(2) Cons.prems(2)
    have "delivered s' @ map uint (readBuffer s')
       = delivered s1 @ map uint (readBuffer s1 @ received_by es)" by simp
    also have "\<dots> = delivered s @ (result @ map uint (readBuffer s1)) @ map uint (received_by es)"
      using d by simp
    also have "\<dots> = delivered s @ map uint (readBuffer s @ received_by (e # es))"
      unfolding f using Read by simp
    finally show ?thesis .
  next
    case (Flush p)
    with Cons.prems(3) show ?thesis by simp
  qed
qed

lemma run_returns:
  "isConnected s \<Longrightarrow> list_all window_elapses es \<Longrightarrow> run es s \<noteq> None"
proof (induction es arbitrary: s)
  case Nil
  then show ?case by simp
next
  case (Cons e es)
  show ?case
  proof (cases e)
    case (Offer received)
    have "isConnected (readLoop_offer received s)"
      using Cons.prems(1) by (simp add: readLoop_offer_def)
    with Cons Offer show ?thesis by simp
  next
    case (Read timeout p ticks)
    with Cons.prems have "list_ex (\<lambda>tick. timeout \<le> fst tick) ticks" by simp
    from drain_returns [OF this, of "readBuffer s" "[]"] Cons.prems(1)
    obtain s1 where r: "read timeout p ticks s = Some s1"
      by (auto simp: read_def split: option.splits)
    with Cons.prems(1) have "isConnected s1"
      by (auto simp: read_def settle_def split: option.splits)
    with Cons Read r show ?thesis by simp
  next
    case (Flush p)
    have "isConnected (flush p s)"
      using Cons.prems(1) by (simp add: flush_def settle_def)
    with Cons Flush show ?thesis by simp
  qed
qed

lemma offered_during_window: "offered_during timeout ticks = concat (window timeout ticks)"
  by (induction ticks) auto

lemma available_Cons:
  "available q (offered # w) (Suc j) = length q + length offered + length (concat (take j w))"
  by (simp add: available_def)

lemma work_conserving_Nil: "work_conserving q [] 0"
  by (simp add: work_conserving_def)

lemma work_conserving_skip:
  assumes "work_conserving [] w n"
  shows "work_conserving [] ([] # w) n"
  unfolding work_conserving_def
proof (intro conjI)
  from assms have b: "n \<le> length w"
    and u: "\<And>j. 1 \<le> j \<Longrightarrow> j \<le> length w \<Longrightarrow> n \<le> available [] w j + (length w - j)"
    and l: "n = length w \<or> (\<exists>j\<in>{1..length w}. n = available [] w j + (length w - j))"
    by (auto simp: work_conserving_def)
  from b show "n \<le> length ([] # w)" by simp
  show "\<forall>j\<in>{1..length ([] # w)}. n \<le> available [] ([] # w) j + (length ([] # w) - j)"
  proof
    fix j assume "j \<in> {1..length ([] # w)}"
    then obtain i where j: "j = Suc i" and i: "i \<le> length w" by (cases j) auto
    show "n \<le> available [] ([] # w) j + (length ([] # w) - j)"
    proof (cases i)
      case 0
      with j b show ?thesis by (simp add: available_def)
    next
      case (Suc i')
      with i u [of i] j show ?thesis by (simp add: available_def)
    qed
  qed
  from l show "n = length ([] # w)
      \<or> (\<exists>j\<in>{1..length ([] # w)}. n = available [] ([] # w) j + (length ([] # w) - j))"
  proof
    assume "n = length w"
    then have "n = available [] ([] # w) 1 + (length ([] # w) - 1)"
      by (simp add: available_def)
    then show ?thesis by (intro disjI2 bexI [of _ 1]) simp_all
  next
    assume "\<exists>j\<in>{1..length w}. n = available [] w j + (length w - j)"
    then obtain j where "1 \<le> j" "j \<le> length w" "n = available [] w j + (length w - j)" by auto
    then have "n = available [] ([] # w) (Suc j) + (length ([] # w) - Suc j)"
      and "Suc j \<in> {1..length ([] # w)}"
      by (simp_all add: available_def)
    then show ?thesis by blast
  qed
qed

lemma work_conserving_take:
  assumes "work_conserving q' w n" and "length q + length offered = Suc (length q')"
  shows "work_conserving q (offered # w) (Suc n)"
  unfolding work_conserving_def
proof (intro conjI)
  from assms(1) have b: "n \<le> length w"
    and u: "\<And>j. 1 \<le> j \<Longrightarrow> j \<le> length w \<Longrightarrow> n \<le> available q' w j + (length w - j)"
    and l: "n = length w \<or> (\<exists>j\<in>{1..length w}. n = available q' w j + (length w - j))"
    by (auto simp: work_conserving_def)
  from b show "Suc n \<le> length (offered # w)" by simp
  show "\<forall>j\<in>{1..length (offered # w)}.
          Suc n \<le> available q (offered # w) j + (length (offered # w) - j)"
  proof
    fix j assume "j \<in> {1..length (offered # w)}"
    then obtain i where j: "j = Suc i" and i: "i \<le> length w" by (cases j) auto
    show "Suc n \<le> available q (offered # w) j + (length (offered # w) - j)"
    proof (cases i)
      case 0
      with j b assms(2) show ?thesis by (simp add: available_def)
    next
      case (Suc i')
      with i u [of i] j assms(2) show ?thesis by (simp add: available_def)
    qed
  qed
  from l show "Suc n = length (offered # w)
      \<or> (\<exists>j\<in>{1..length (offered # w)}.
            Suc n = available q (offered # w) j + (length (offered # w) - j))"
  proof
    assume "n = length w"
    then show ?thesis by simp
  next
    assume "\<exists>j\<in>{1..length w}. n = available q' w j + (length w - j)"
    then obtain j where "1 \<le> j" "j \<le> length w" "n = available q' w j + (length w - j)" by auto
    with assms(2) have "Suc n = available q (offered # w) (Suc j) + (length (offered # w) - Suc j)"
      and "Suc j \<in> {1..length (offered # w)}"
      by (simp_all add: available_def)
    then show ?thesis by blast
  qed
qed

lemma drain_work_conserving:
  "drain timeout ticks q acc = Some (res, q') \<Longrightarrow>
     \<exists>n. length res = length acc + n \<and> work_conserving q (window timeout ticks) n"
proof (induction ticks arbitrary: q acc)
  case Nil
  then show ?case by simp
next
  case (Cons t ticks)
  obtain elapsed offered where t: "t = (elapsed, offered)" by (cases t)
  show ?case
  proof (cases "elapsed < timeout")
    case False
    with Cons.prems t show ?thesis by (simp add: work_conserving_Nil)
  next
    case True
    show ?thesis
    proof (cases "q @ offered")
      case Nil
      with Cons.prems t True have "drain timeout ticks [] acc = Some (res, q')" by simp
      from Cons.IH [OF this] obtain n
        where "length res = length acc + n" "work_conserving [] (window timeout ticks) n" by blast
      with Nil t True work_conserving_skip show ?thesis by auto
    next
      case (Cons b q'')
      with Cons.prems t True
      have "drain timeout ticks q'' (acc @ [sint b AND 255]) = Some (res, q')" by simp
      from Cons.IH [OF this] obtain n
        where n: "length res = length acc + Suc n" "work_conserving q'' (window timeout ticks) n"
        by auto
      from Cons have "length q + length offered = Suc (length q'')"
        by (metis length_Cons length_append)
      from work_conserving_take [OF n(2) this] n(1) t True show ?thesis by auto
    qed
  qed
qed

lemma work_conserving_unique:
  "work_conserving q w n \<Longrightarrow> work_conserving q w m \<Longrightarrow> n = m"
  unfolding work_conserving_def by (metis le_antisym)

lemma map_uint_inj: "map uint xs = map uint ys \<Longrightarrow> xs = (ys :: byte list)"
  by (simp add: inj_map_eq_map [OF inj_onI])

lemma drain_exact:
  assumes "drain timeout ticks q [] = Some (res, q')"
  shows "\<exists>n. res = map uint (take n (q @ offered_during timeout ticks))
           \<and> q' = drop n (q @ offered_during timeout ticks)
           \<and> work_conserving q (window timeout ticks) n"
proof -
  let ?B = "q @ offered_during timeout ticks"
  from drain_work_conserving [OF assms] obtain n
    where n: "length res = n" "work_conserving q (window timeout ticks) n" by auto
  from drain_fifo [OF assms] have f: "res @ map uint q' = map uint ?B" by simp
  then have "take n (res @ map uint q') = take n (map uint ?B)"
        and "drop n (res @ map uint q') = drop n (map uint ?B)" by simp_all
  with n(1) have "res = map uint (take n ?B)" and "map uint q' = map uint (drop n ?B)"
    by (simp_all add: take_map drop_map)
  with n(2) map_uint_inj show ?thesis by blast
qed

lemma read_exact:
  assumes "isConnected s" and "read timeout p ticks s = Some s'"
  shows "\<exists>n. settled s' = settled s @ [(p, Resolved (JArr (map JInt
                 (map uint (take n (readBuffer s @ offered_during timeout ticks))))))]
           \<and> readBuffer s' = drop n (readBuffer s @ offered_during timeout ticks)
           \<and> work_conserving (readBuffer s) (window timeout ticks) n"
proof -
  from assms obtain result q where d: "drain timeout ticks (readBuffer s) [] = Some (result, q)"
    and s': "s' = settle (Some p) (Resolved (JArr (map JInt result))) (s\<lparr>readBuffer := q\<rparr>)"
    by (auto simp: read_def split: option.splits)
  from drain_exact [OF d] s' show ?thesis
    by (auto simp: settle_def)
qed

text \<open>
  Claim C3. In an open session, for every interleaving of the read loop's offers with
  successive \<open>read\<close> drains (any arrival times, any windows): every drain whose
  schedule reaches the end of its window returns; and when no \<open>flush\<close> is among the
  events, the bytes delivered so far followed by the bytes still in the queue are
  exactly the bytes that were in the queue at the start followed by the bytes received
  from the device, in that order: none lost, none twice, none out of order. \<open>flush\<close>
  empties the queue and delivers nothing. Each drain accumulates whatever is available
  during its window: it resolves with the first \<open>n\<close> of the bytes queued at its start
  and received during the window, leaves the others in the queue, and \<open>n\<close> is the one
  number that is work conserving: a byte at every turn of the window, or, from some
  poll on at which everything received so far had been taken, a byte at every later
  turn; never more than one byte per turn, and no byte before it was received.
\<close>

theorem drains_are_fifo:
  assumes "isConnected s" and "serialPort s \<noteq> None"
  shows "(list_all window_elapses es \<longrightarrow> run es s \<noteq> None)
       \<and> (\<forall>s'. run es s = Some s' \<and> (\<forall>e\<in>set es. \<not> is_flush e)
              \<longrightarrow> delivered s' @ map uint (readBuffer s')
                    = delivered s @ map uint (readBuffer s @ received_by es))
       \<and> readBuffer (flush p s) = [] \<and> delivered (flush p s) = delivered s
       \<and> (\<forall>s'. read timeout q ticks s = Some s'
              \<longrightarrow> (\<exists>n. settled s'
                         = settled s @ [(q, Resolved (JArr (map JInt (map uint
                               (take n (readBuffer s @ offered_during timeout ticks))))))]
                     \<and> readBuffer s' = drop n (readBuffer s @ offered_during timeout ticks)
                     \<and> work_conserving (readBuffer s) (window timeout ticks) n
                     \<and> (\<forall>m. work_conserving (readBuffer s) (window timeout ticks) m
                            \<longrightarrow> m = n)))"
proof (intro conjI allI impI)
  assume "list_all window_elapses es"
  with assms(1) show "run es s \<noteq> None" by (rule run_returns)
next
  fix s'
  assume "run es s = Some s' \<and> (\<forall>e\<in>set es. \<not> is_flush e)"
  then have "\<forall>e\<in>set es. \<not> is_flush e" and "run es s = Some s'"
    by simp_all
  with assms show "delivered s' @ map uint (readBuffer s')
                    = delivered s @ map uint (readBuffer s @ received_by es)"
    by (rule run_fifo)
next
  show "readBuffer (flush p s) = []"
    by (simp add: flush_def settle_def)
  show "delivered (flush p s) = delivered s"
    by (simp add: flush_def settle_def delivered_def)
next
  fix s'
  assume "read timeout q ticks s = Some s'"
  from read_exact [OF assms(1) this] obtain n
    where n: "settled s' = settled s @ [(q, Resolved (JArr (map JInt (map uint
                 (take n (readBuffer s @ offered_during timeout ticks))))))]"
      "readBuffer s' = drop n (readBuffer s @ offered_during timeout ticks)"
      "work_conserving (readBuffer s) (window timeout ticks) n" by blast
  from n(3) have "\<forall>m. work_conserving (readBuffer s) (window timeout ticks) m \<longrightarrow> m = n"
    using work_conserving_unique by blast
  with n show "\<exists>n. settled s'
                         = settled s @ [(q, Resolved (JArr (map JInt (map uint
                               (take n (readBuffer s @ offered_during timeout ticks))))))]
                     \<and> readBuffer s' = drop n (readBuffer s @ offered_during timeout ticks)
                     \<and> work_conserving (readBuffer s) (window timeout ticks) n
                     \<and> (\<forall>m. work_conserving (readBuffer s) (window timeout ticks) m
                            \<longrightarrow> m = n)"
    by blast
qed

theorem drains_are_fifo_witness:
  "isConnected online \<and> serialPort online \<noteq> None \<and> list_all window_elapses traffic
   \<and> run traffic online = Some served
   \<and> received_by traffic = [1, 200, 3, 4, 5]
   \<and> delivered online = [] \<and> delivered served = [1, 200, 3] \<and> readBuffer served = [4, 5]
   \<and> delivered served @ map uint (readBuffer served)
       = delivered online @ map uint (readBuffer online @ received_by traffic)
   \<and> read 4 3 late online = Some late_served
   \<and> readBuffer online @ offered_during 4 late = [7, 8, 9]
   \<and> window 4 late = [[], [], [7, 8, 9], []]
   \<and> work_conserving (readBuffer online) (window 4 late) 2
   \<and> (\<exists>n. settled late_served
              = settled online @ [(3, Resolved (JArr (map JInt (map uint
                    (take n (readBuffer online @ offered_during 4 late))))))]
          \<and> readBuffer late_served = drop n (readBuffer online @ offered_during 4 late)
          \<and> work_conserving (readBuffer online) (window 4 late) n
          \<and> 2 = n)"
proof -
  have a: "isConnected online" "serialPort online \<noteq> None"
    by (simp_all add: online_eval)
  have w: "list_all window_elapses traffic"
    by (simp add: traffic_def)
  have r: "run traffic online = Some served"
    by (simp add: traffic_def served_def readLoop_offer_def read_def settle_def online_eval)
  have n: "\<forall>e\<in>set traffic. \<not> is_flush e"
    by (simp add: traffic_def)
  have v: "received_by traffic = [1, 200, 3, 4, 5]" "delivered online = []"
          "delivered served = [1, 200, 3]" "readBuffer served = [4, 5]"
    by (simp_all add: traffic_def served_def delivered_def online_eval)
  have l: "read 4 3 late online = Some late_served"
    by (simp add: late_def late_served_def read_def settle_def online_eval)
  have o: "readBuffer online @ offered_during 4 late = [7, 8, 9]"
          "window 4 late = [[], [], [7, 8, 9], []]"
    by (simp_all add: late_def online_eval)
  have c: "work_conserving (readBuffer online) (window 4 late) 2"
    unfolding o(2)
    by (simp add: work_conserving_def available_def online_eval atLeastAtMost_upt upt_rec)
  note 1 = drains_are_fifo [OF a, of traffic, THEN conjunct2, THEN conjunct1, rule_format,
         OF conjI [OF r n]]
  note 2 = drains_are_fifo [OF a, of traffic, THEN conjunct1, rule_format, OF w]
  note 3 = drains_are_fifo [OF a, where timeout = 4 and q = 3 and ticks = late,
         THEN conjunct2, THEN conjunct2, THEN conjunct2, THEN conjunct2, rule_format, OF l]
  from 3 c have "\<exists>n. settled late_served
              = settled online @ [(3, Resolved (JArr (map JInt (map uint
                    (take n (readBuffer online @ offered_during 4 late))))))]
          \<and> readBuffer late_served = drop n (readBuffer online @ offered_during 4 late)
          \<and> work_conserving (readBuffer online) (window 4 late) n
          \<and> 2 = n"
    by blast
  with 1 2 a w r v l o c show ?thesis by blast
qed

end
